theory Spec2Isabelle
  imports Main "HOL-Library.Word" "HOL-Library.Signed_Division"
begin

section \<open>The embedded controller (maze.ino)\<close>

text \<open>
  The sketch keeps one flag, \<^verbatim>\<open>gameIsActive\<close>, and the two servo positions.  One pass of
  \<^verbatim>\<open>loop()\<close> first looks at the serial input and then, when a game is active, moves the
  servos and samples the distance.  What the pass reads from the hardware is an argument
  of the model: the line \<^verbatim>\<open>Serial.readStringUntil('\n')\<close> returned (\<open>None\<close> when
  \<^verbatim>\<open>Serial.available()\<close> is 0), the two \<^verbatim>\<open>analogRead\<close> values and the value
  \<^verbatim>\<open>getDistance()\<close> returned.  \<^verbatim>\<open>getDistance\<close> converts the echo time with floating
  point arithmetic (\<^verbatim>\<open>duration * 0.034 / 2\<close>); the model starts from its result, a
  32-bit signed \<^verbatim>\<open>long\<close>.  What the pass prints with \<^verbatim>\<open>Serial.println\<close> is returned as
  a list of lines.
\<close>

record ino =
  gameIsActive :: bool
  servoX :: int
  servoY :: int

definition FALL_THRESHOLD :: "32 word" where
  "FALL_THRESHOLD = 5"

text \<open>\<^verbatim>\<open>setup()\<close>: both servos centred, the flag at its initialiser, one line printed.\<close>

definition setup_ino :: "ino \<times> string list" where
  "setup_ino = (\<lparr>gameIsActive = False, servoX = 90, servoY = 90\<rparr>, [''Arduino Ready.''])"

text \<open>\<^verbatim>\<open>String::trim()\<close> removes the leading and trailing characters that C's
  \<^verbatim>\<open>isspace\<close> accepts: space, \<^verbatim>\<open>\t \n \v \f \r\<close>.\<close>

definition isspace :: "char \<Rightarrow> bool" where
  "isspace c = (c = CHR '' '' \<or> c = CHR 0x09 \<or> c = CHR 0x0A \<or> c = CHR 0x0B
                \<or> c = CHR 0x0C \<or> c = CHR 0x0D)"

definition trim :: "string \<Rightarrow> string" where
  "trim s = rev (dropWhile isspace (rev (dropWhile isspace s)))"

text \<open>Arduino's \<^verbatim>\<open>map(x, in_min, in_max, out_min, out_max)\<close>, in \<^verbatim>\<open>long\<close> arithmetic;
  the division truncates.  \<^verbatim>\<open>analogRead\<close> returns 0 to 1023, which keeps every
  intermediate value far inside 32 bits and the angles inside what \<^verbatim>\<open>Servo::write\<close>
  takes as it is.\<close>

definition map_range :: "int \<Rightarrow> int \<Rightarrow> int \<Rightarrow> int \<Rightarrow> int \<Rightarrow> int" where
  "map_range x in_min in_max out_min out_max =
     ((x - in_min) * (out_max - out_min)) sdiv (in_max - in_min) + out_min"

text \<open>Lines 33 to 41 of \<^verbatim>\<open>loop()\<close>: the command.\<close>

definition readCommand :: "string option \<Rightarrow> ino \<Rightarrow> ino \<times> string list" where
  "readCommand input s =
     (case input of
        None \<Rightarrow> (s, [])
      | Some line \<Rightarrow>
          (let command = trim line in
           if command = ''START'' \<and> \<not> gameIsActive s
           then (s\<lparr>gameIsActive := True\<rparr>, [''Game Started!''])
           else (s, [])))"

text \<open>The test of line 59 on the sampled distance.\<close>

definition fallen :: "32 word \<Rightarrow> bool" where
  "fallen distance = (0 <s distance \<and> distance <s FALL_THRESHOLD)"

text \<open>Lines 43 to 63 of \<^verbatim>\<open>loop()\<close>: the servos and the distance check.\<close>

definition playTick :: "int \<Rightarrow> int \<Rightarrow> 32 word \<Rightarrow> ino \<Rightarrow> ino \<times> string list" where
  "playTick joyX joyY distance s =
     (if gameIsActive s then
        (let angleX = map_range joyX 0 1023 70 110;
             angleY = map_range joyY 0 1023 80 110;
             s1 = s\<lparr>servoX := angleX, servoY := angleY\<rparr>
         in if fallen distance
            then (s1\<lparr>gameIsActive := False\<rparr>, [''FINISH''])
            else (s1, []))
      else (s, []))"

text \<open>One pass of \<^verbatim>\<open>loop()\<close>.\<close>

definition loop :: "string option \<Rightarrow> int \<Rightarrow> int \<Rightarrow> 32 word \<Rightarrow> ino \<Rightarrow> ino \<times> string list" where
  "loop input joyX joyY distance s =
     (let (s1, out1) = readCommand input s;
          (s2, out2) = playTick joyX joyY distance s1
      in (s2, out1 @ out2))"


section \<open>JavaScript values (main.js, renderer.js)\<close>

text \<open>
  Numbers.  The numbers this program handles are counts and millisecond times, so the
  finite numbers are modelled as integers; \<open>PInf\<close>, \<open>NInf\<close> and \<open>NaN\<close> are
  \<^verbatim>\<open>Infinity\<close>, \<^verbatim>\<open>-Infinity\<close> and \<^verbatim>\<open>NaN\<close>.  JavaScript numbers are doubles: the
  model agrees with them on integers of magnitude below \<open>2^53\<close>.
\<close>

datatype jsnum = Fin int | PInf | NInf | NaN

text \<open>The values a worksheet cell or a property of an IPC message holds here.\<close>

datatype jsval = Undefined | Null | Bool bool | Num jsnum | Str string

text \<open>Truthiness: what \<^verbatim>\<open>x ? a : b\<close>, \<^verbatim>\<open>x || y\<close> and \<^verbatim>\<open>if (x)\<close> test.\<close>

fun truthy_num :: "jsnum \<Rightarrow> bool" where
  "truthy_num (Fin n) = (n \<noteq> 0)"
| "truthy_num NaN = False"
| "truthy_num PInf = True"
| "truthy_num NInf = True"

fun truthy :: "jsval \<Rightarrow> bool" where
  "truthy Undefined = False"
| "truthy Null = False"
| "truthy (Bool b) = b"
| "truthy (Num n) = truthy_num n"
| "truthy (Str s) = (s \<noteq> [])"

text \<open>\<^verbatim>\<open>x || y\<close> on values, and \<^verbatim>\<open>n || 0\<close> on a number.\<close>

definition js_or :: "jsval \<Rightarrow> jsval \<Rightarrow> jsval" where
  "js_or x y = (if truthy x then x else y)"

definition or0 :: "jsnum \<Rightarrow> jsnum" where
  "or0 n = (if truthy_num n then n else Fin 0)"

text \<open>\<^verbatim>\<open>String(x)\<close>.  A finite number is an integer here and prints in decimal (as
  JavaScript prints every integer of magnitude below \<open>10^21\<close>).\<close>

definition digit_char :: "nat \<Rightarrow> char" where
  "digit_char d = ''0123456789'' ! d"

fun nat_to_string :: "nat \<Rightarrow> string" where
  "nat_to_string n =
     (if n < 10 then [digit_char n] else nat_to_string (n div 10) @ [digit_char (n mod 10)])"

definition int_to_string :: "int \<Rightarrow> string" where
  "int_to_string i = (if i < 0 then CHR ''-'' # nat_to_string (nat (- i)) else nat_to_string (nat i))"

fun num_to_string :: "jsnum \<Rightarrow> string" where
  "num_to_string (Fin i) = int_to_string i"
| "num_to_string PInf = ''Infinity''"
| "num_to_string NInf = ''-Infinity''"
| "num_to_string NaN = ''NaN''"

fun toString :: "jsval \<Rightarrow> string" where
  "toString Undefined = ''undefined''"
| "toString Null = ''null''"
| "toString (Bool b) = (if b then ''true'' else ''false'')"
| "toString (Num n) = num_to_string n"
| "toString (Str s) = s"

text \<open>\<^verbatim>\<open>Number(x)\<close>.  How a string converts (the language's StringToNumber) is the
  argument \<open>S\<close> of everything that reads the workbook: nothing below depends on it.\<close>

fun toNumber :: "(string \<Rightarrow> jsnum) \<Rightarrow> jsval \<Rightarrow> jsnum" where
  "toNumber S Undefined = NaN"
| "toNumber S Null = Fin 0"
| "toNumber S (Bool b) = (if b then Fin 1 else Fin 0)"
| "toNumber S (Num n) = n"
| "toNumber S (Str s) = S s"

text \<open>\<^verbatim>\<open>a + b\<close>, \<^verbatim>\<open>a - b\<close> and \<^verbatim>\<open>a < b\<close> on numbers.\<close>

fun num_add :: "jsnum \<Rightarrow> jsnum \<Rightarrow> jsnum" where
  "num_add (Fin a) (Fin b) = Fin (a + b)"
| "num_add NaN _ = NaN"
| "num_add _ NaN = NaN"
| "num_add PInf NInf = NaN"
| "num_add NInf PInf = NaN"
| "num_add PInf _ = PInf"
| "num_add _ PInf = PInf"
| "num_add NInf _ = NInf"
| "num_add _ NInf = NInf"

fun num_neg :: "jsnum \<Rightarrow> jsnum" where
  "num_neg (Fin a) = Fin (- a)"
| "num_neg PInf = NInf"
| "num_neg NInf = PInf"
| "num_neg NaN = NaN"

definition num_sub :: "jsnum \<Rightarrow> jsnum \<Rightarrow> jsnum" where
  "num_sub a b = num_add a (num_neg b)"

fun num_less :: "jsnum \<Rightarrow> jsnum \<Rightarrow> bool" where
  "num_less (Fin a) (Fin b) = (a < b)"
| "num_less NaN _ = False"
| "num_less _ NaN = False"
| "num_less PInf _ = False"
| "num_less _ NInf = False"
| "num_less _ PInf = True"
| "num_less NInf _ = True"

text \<open>\<^verbatim>\<open>s.toLowerCase()\<close> and \<^verbatim>\<open>s.toUpperCase()\<close> on the ASCII letters (strings are byte
  strings here), and \<^verbatim>\<open>s.trim()\<close>, which is \<open>trim\<close> above on ASCII white space.\<close>

definition lower_char :: "char \<Rightarrow> char" where
  "lower_char c =
     (let n = (of_char c :: nat) in if 65 \<le> n \<and> n \<le> 90 then char_of (n + 32) else c)"

definition upper_char :: "char \<Rightarrow> char" where
  "upper_char c =
     (let n = (of_char c :: nat) in if 97 \<le> n \<and> n \<le> 122 then char_of (n - 32) else c)"

definition toLowerCase :: "string \<Rightarrow> string" where
  "toLowerCase s = map lower_char s"

definition toUpperCase :: "string \<Rightarrow> string" where
  "toUpperCase s = map upper_char s"

text \<open>\<^verbatim>\<open>xs.findIndex(P)\<close>; \<open>None\<close> is the \<^verbatim>\<open>-1\<close> of JavaScript.\<close>

fun findIndex :: "('a \<Rightarrow> bool) \<Rightarrow> 'a list \<Rightarrow> nat option" where
  "findIndex P [] = None"
| "findIndex P (x # xs) = (if P x then Some 0 else map_option Suc (findIndex P xs))"

text \<open>\<^verbatim>\<open>xs.sort(cmp)\<close>.  The sort is stable; an element goes behind another exactly when
  the comparator's result for the pair is above 0.  For a comparator that orders the
  elements consistently this insertion sort returns what every engine returns; where it
  does not (a \<open>NaN\<close> difference) the language leaves the order to the engine, and only
  that the result is a rearrangement of the input is used below.\<close>

fun insert_by :: "('a \<Rightarrow> 'a \<Rightarrow> jsnum) \<Rightarrow> 'a \<Rightarrow> 'a list \<Rightarrow> 'a list" where
  "insert_by cmp x [] = [x]"
| "insert_by cmp x (y # ys) =
     (if num_less (Fin 0) (cmp x y) then y # insert_by cmp x ys else x # y # ys)"

definition sort_by :: "('a \<Rightarrow> 'a \<Rightarrow> jsnum) \<Rightarrow> 'a list \<Rightarrow> 'a list" where
  "sort_by cmp xs = foldr (insert_by cmp) xs []"


section \<open>The leaderboard workbook (main.js)\<close>

text \<open>
  The workbook is read and written through the ExcelJS library, which is not part of the
  repository.  Its worksheet is modelled by what the program asks of it: a sheet is the
  list of its rows (row \<open>n\<close> at position \<open>n - 1\<close>), a row the list of its cells (column
  \<open>c\<close> at position \<open>c - 1\<close>), an empty cell holds \<open>Null\<close>.  \<^verbatim>\<open>rowCount\<close> is the number of
  the last row, \<^verbatim>\<open>eachRow\<close> visits the rows that have a value, \<^verbatim>\<open>eachCell\<close> visits the
  cells that have one and, with \<^verbatim>\<open>includeEmpty\<close>, every cell up to the last.  The file
  on disk is absent, of size 0, something \<^verbatim>\<open>readFile\<close> throws on, or a workbook with named
  sheets; the cells of a workbook hold the values that reading it returns.
\<close>

type_synonym row = "jsval list"

type_synonym sheet = "row list"

datatype xlsx_file = Missing | ZeroBytes | Unreadable | Workbook "(string \<times> sheet) list"

datatype key = KName | KRollNo | KTime | KSuccesses | KDefeats | KHasImproved

text \<open>\<^verbatim>\<open>excelColumns\<close>: header and key of each column (the width is layout only).\<close>

definition excelColumns :: "(string \<times> key) list" where
  "excelColumns =
     [(''Name'', KName), (''RollNo'', KRollNo), (''BestTime'', KTime),
      (''Successes'', KSuccesses), (''Defeats'', KDefeats), (''HasImproved'', KHasImproved)]"

text \<open>A record of the leaderboard as \<^verbatim>\<open>readData\<close> returns it and the save handler
  updates it.  \<^verbatim>\<open>name\<close> is never sanitized, so it is whatever the cell held.\<close>

record player =
  name :: jsval
  rollNo :: string
  time :: jsnum
  successes :: jsnum
  defeats :: jsnum
  hasImproved :: bool

definition getWorksheet :: "(string \<times> sheet) list \<Rightarrow> string \<Rightarrow> sheet option" where
  "getWorksheet sheets n = map_of sheets n"

definition rowCount :: "sheet \<Rightarrow> nat" where
  "rowCount sh = length sh"

definition hasValues :: "row \<Rightarrow> bool" where
  "hasValues r = list_ex (\<lambda>c. c \<noteq> Null) r"

definition eachRow :: "sheet \<Rightarrow> (nat \<times> row) list" where
  "eachRow sh = filter (\<lambda>(rowNumber, r). hasValues r) (enumerate 1 sh)"

definition eachCell :: "row \<Rightarrow> (nat \<times> jsval) list" where
  "eachCell r = filter (\<lambda>(colNumber, c). c \<noteq> Null) (enumerate 1 r)"

definition eachCellIncludeEmpty :: "row \<Rightarrow> (nat \<times> jsval) list" where
  "eachCellIncludeEmpty r = enumerate 1 r"

text \<open>Lines 205 to 211: \<^verbatim>\<open>excelColumns.find(c => c.header === cell.value)\<close> for each
  header cell; the strict equality holds for a string cell only.\<close>

definition columnDef :: "jsval \<Rightarrow> key option" where
  "columnDef v = (case v of Str h \<Rightarrow> map_of excelColumns h | _ \<Rightarrow> None)"

definition headerKeyMap :: "row \<Rightarrow> (nat \<rightharpoonup> key)" where
  "headerKeyMap headerRow =
     foldl (\<lambda>m (colNumber, c). case columnDef c of Some k \<Rightarrow> m(colNumber \<mapsto> k) | None \<Rightarrow> m)
       Map.empty (eachCell headerRow)"

text \<open>Lines 216 to 220: the object \<^verbatim>\<open>player\<close>, a property per mapped column; a property
  never assigned reads \<^verbatim>\<open>undefined\<close>.\<close>

definition readRow :: "(nat \<rightharpoonup> key) \<Rightarrow> row \<Rightarrow> (key \<Rightarrow> jsval)" where
  "readRow hk r =
     foldl (\<lambda>p (colNumber, c). case hk colNumber of Some k \<Rightarrow> p(k := c) | None \<Rightarrow> p)
       (\<lambda>k. Undefined) (eachCellIncludeEmpty r)"

text \<open>Lines 222 to 227: the sanitizing assignments.\<close>

definition sanitize :: "(string \<Rightarrow> jsnum) \<Rightarrow> (key \<Rightarrow> jsval) \<Rightarrow> player" where
  "sanitize S p =
     \<lparr> name = p KName,
       rollNo = toString (js_or (p KRollNo) (Str [])),
       time = (if truthy (p KTime) then toNumber S (p KTime) else PInf),
       successes = or0 (toNumber S (p KSuccesses)),
       defeats = or0 (toNumber S (p KDefeats)),
       hasImproved = (p KHasImproved = Bool True
                      \<or> toLowerCase (toString (p KHasImproved)) = ''true'') \<rparr>"

text \<open>Lines 213 to 231: the loop over the rows, \<^verbatim>\<open>data.push\<close> in row order.\<close>

fun readRows :: "(string \<Rightarrow> jsnum) \<Rightarrow> (nat \<rightharpoonup> key) \<Rightarrow> (nat \<times> row) list \<Rightarrow> player list" where
  "readRows S hk [] = []"
| "readRows S hk ((rowNumber, r) # rest) =
     (if rowNumber > 1 then
        (let p = sanitize S (readRow hk r)
         in if rollNo p \<noteq> [] then p # readRows S hk rest else readRows S hk rest)
      else readRows S hk rest)"

text \<open>\<^verbatim>\<open>readData\<close>.  Every early \<^verbatim>\<open>return []\<close> and the \<^verbatim>\<open>catch\<close> are branches.\<close>

definition readData :: "(string \<Rightarrow> jsnum) \<Rightarrow> xlsx_file \<Rightarrow> player list" where
  "readData S f =
     (case f of
        Missing \<Rightarrow> []
      | ZeroBytes \<Rightarrow> []
      | Unreadable \<Rightarrow> []
      | Workbook sheets \<Rightarrow>
          (case getWorksheet sheets ''Leaderboard'' of
             None \<Rightarrow> []
           | Some sh \<Rightarrow>
               if rowCount sh \<le> 1 then []
               else (let headerRow = sh ! 0 in
                     if hasValues headerRow
                     then readRows S (headerKeyMap headerRow) (eachRow sh)
                     else [])))"

subsection \<open>The handler of \<^verbatim>\<open>excel:save-data\<close>\<close>

text \<open>The message \<^verbatim>\<open>newEntry\<close>: the renderer's \<^verbatim>\<open>currentPlayer\<close>.  Its \<^verbatim>\<open>time\<close> is a
  number and its \<^verbatim>\<open>status\<close> a string; \<^verbatim>\<open>rollNo\<close> and \<^verbatim>\<open>name\<close> are any value.\<close>

record entry =
  entryName :: jsval
  entryRollNo :: jsval
  entryTime :: jsnum
  status :: string

text \<open>Lines 254 to 264: the record of a player who exists.\<close>

definition updatePlayer :: "entry \<Rightarrow> player \<Rightarrow> player" where
  "updatePlayer newEntry p =
     (if status newEntry = ''success'' then
        (let p1 = p\<lparr>successes := num_add (or0 (successes p)) (Fin 1)\<rparr>
         in if num_less (entryTime newEntry) (time p1)
            then p1\<lparr>time := entryTime newEntry, name := entryName newEntry, hasImproved := True\<rparr>
            else p1)
      else p\<lparr>defeats := num_add (or0 (defeats p)) (Fin 1)\<rparr>)"

text \<open>Lines 267 to 274: the record of a new player.\<close>

definition newPlayer :: "entry \<Rightarrow> player" where
  "newPlayer newEntry =
     \<lparr> name = entryName newEntry,
       rollNo = toString (entryRollNo newEntry),
       time = (if status newEntry = ''success'' then entryTime newEntry else PInf),
       successes = (if status newEntry = ''success'' then Fin 1 else Fin 0),
       defeats = (if status newEntry = ''defeat'' then Fin 1 else Fin 0),
       hasImproved = (status newEntry = ''success'') \<rparr>"

text \<open>Lines 247 to 275: from the records read to the records written.\<close>

definition updateData :: "entry \<Rightarrow> player list \<Rightarrow> player list" where
  "updateData newEntry data =
     (let newEntryRollNo = toString (entryRollNo newEntry);
          existingPlayerIndex = findIndex (\<lambda>p. rollNo p = newEntryRollNo) data;
          data1 = map (\<lambda>p. p\<lparr>hasImproved := False\<rparr>) data
      in case existingPlayerIndex of
           Some i \<Rightarrow> data1[i := updatePlayer newEntry (data1 ! i)]
         | None \<Rightarrow> data1 @ [newPlayer newEntry])"

text \<open>Lines 278 to 281: the new workbook, its header row from \<^verbatim>\<open>sheet.columns\<close> and a
  row per record from \<^verbatim>\<open>sheet.addRows(data)\<close>, each cell the property under the column's
  key.\<close>

fun playerField :: "player \<Rightarrow> key \<Rightarrow> jsval" where
  "playerField p KName = name p"
| "playerField p KRollNo = Str (rollNo p)"
| "playerField p KTime = Num (time p)"
| "playerField p KSuccesses = Num (successes p)"
| "playerField p KDefeats = Num (defeats p)"
| "playerField p KHasImproved = Bool (hasImproved p)"

text \<open>
  What the library returns for a cell once the workbook was written and is read again.
  A number or a boolean is returned as written, and \<^verbatim>\<open>undefined\<close> and \<^verbatim>\<open>null\<close> leave the
  cell empty.  A string is not always returned as written: ExcelJS, for one, decodes an
  escape of the form \<^verbatim>\<open>_xHHHH_\<close> when it reads, so that \<^verbatim>\<open>_x0041_\<close> comes back as \<^verbatim>\<open>A\<close>.
  What a string comes back as is therefore not fixed here: it is the argument \<open>X\<close> of
  everything that writes, \<open>X s\<close> being the value read from a cell that was written with
  the string \<open>s\<close>.  Only the six header strings of \<^verbatim>\<open>excelColumns\<close>, which hold letters
  only, are taken to come back as written.
\<close>

definition written :: "(string \<Rightarrow> jsval) \<Rightarrow> jsval \<Rightarrow> jsval" where
  "written X v = (case v of Undefined \<Rightarrow> Null | Str s \<Rightarrow> X s | _ \<Rightarrow> v)"

definition headerCells :: row where
  "headerCells = map (\<lambda>(header, k). Str header) excelColumns"

definition addRow :: "(string \<Rightarrow> jsval) \<Rightarrow> player \<Rightarrow> row" where
  "addRow X p = map (\<lambda>(header, k). written X (playerField p k)) excelColumns"

definition newWorkbook :: "(string \<Rightarrow> jsval) \<Rightarrow> player list \<Rightarrow> xlsx_file" where
  "newWorkbook X data = Workbook [(''Leaderboard'', headerCells # map (addRow X) data)]"

text \<open>The handler.  \<^verbatim>\<open>writeFile\<close> either completes, and the file is the new workbook, or
  throws: the argument \<open>w\<close> is \<open>None\<close> when it completes and \<open>Some f'\<close> when it throws and
  leaves the file as \<open>f'\<close>.  The handler returns \<^verbatim>\<open>{success: true}\<close> or
  \<^verbatim>\<open>{success: false, error}\<close>.\<close>

datatype save_result = SaveOk | SaveFailed

definition saveData ::
  "(string \<Rightarrow> jsval) \<Rightarrow> (string \<Rightarrow> jsnum) \<Rightarrow> xlsx_file option \<Rightarrow> xlsx_file \<Rightarrow> entry
     \<Rightarrow> xlsx_file \<times> save_result" where
  "saveData X S w f newEntry =
     (let data = updateData newEntry (readData S f)
      in case w of
           None \<Rightarrow> (newWorkbook X data, SaveOk)
         | Some f' \<Rightarrow> (f', SaveFailed))"

text \<open>A sequence of calls of the handler, one after the other, every write completing.\<close>

fun saveAll ::
  "(string \<Rightarrow> jsval) \<Rightarrow> (string \<Rightarrow> jsnum) \<Rightarrow> xlsx_file \<Rightarrow> entry list \<Rightarrow> xlsx_file" where
  "saveAll X S f [] = f"
| "saveAll X S f (e # es) = saveAll X S (fst (saveData X S None f e)) es"

subsection \<open>The ranked view (renderer.js)\<close>

text \<open>\<^verbatim>\<open>renderLeaderboard\<close>, up to the rows it draws: \<^verbatim>\<open>sortedData\<close> and its first ten.\<close>

definition sortedData :: "player list \<Rightarrow> player list" where
  "sortedData data =
     sort_by (\<lambda>a b. num_sub (time a) (time b)) (filter (\<lambda>p. time p \<noteq> PInf) data)"

definition renderLeaderboard :: "player list \<Rightarrow> player list" where
  "renderLeaderboard data = take 10 (sortedData data)"



subsection \<open>Calls of the handler in flight\<close>





section \<open>The session timer (renderer.js)\<close>

text \<open>
  The renderer's variables \<^verbatim>\<open>timerInterval\<close>, \<^verbatim>\<open>startTime\<close> and \<^verbatim>\<open>currentPlayer\<close>, the
  screen that carries the class \<^verbatim>\<open>active\<close>, the two text displays the functions below
  write, the interval timers the browser is running (\<^verbatim>\<open>setInterval\<close> adds one and returns
  its id, \<^verbatim>\<open>clearInterval\<close> removes it) and the commands passed to
  \<^verbatim>\<open>window.electronAPI.sendCommand\<close>.  \<^verbatim>\<open>Date.now()\<close> and the contents of the two input
  fields are arguments.  Ids of timers start at 1, so an id is truthy.
\<close>

datatype screen = Welcome | Game | Leaderboard

record renderer =
  timerInterval :: "nat option"
  startTime :: "int option"
  currentPlayer :: entry
  activeScreen :: screen
  errorMessage :: string
  playerInfo :: string
  intervals :: "nat list"
  nextInterval :: nat
  sentCommands :: "string list"

definition initialRenderer :: renderer where
  "initialRenderer =
     \<lparr> timerInterval = None, startTime = None,
       currentPlayer = \<lparr>entryName = Str [], entryRollNo = Str [], entryTime = Fin 0,
                         status = ''pending''\<rparr>,
       activeScreen = Welcome, errorMessage = [], playerInfo = [],
       intervals = [], nextInterval = 1, sentCommands = [] \<rparr>"

definition switchScreen :: "screen \<Rightarrow> renderer \<Rightarrow> renderer" where
  "switchScreen screenName r = r\<lparr>activeScreen := screenName\<rparr>"

definition startTimer :: "int \<Rightarrow> renderer \<Rightarrow> renderer" where
  "startTimer now r =
     r\<lparr> startTime := Some now,
        timerInterval := Some (nextInterval r),
        intervals := intervals r @ [nextInterval r],
        nextInterval := Suc (nextInterval r) \<rparr>"

definition handleStartTrial :: "string \<Rightarrow> string \<Rightarrow> int \<Rightarrow> renderer \<Rightarrow> renderer" where
  "handleStartTrial nameInput rollNoInput now r =
     (let name0 = trim nameInput;
          rollNo0 = trim rollNoInput
      in if name0 = [] \<or> rollNo0 = []
         then r\<lparr>errorMessage := ''Player Name and Roll Number are required.''\<rparr>
         else
           (let name1 = toUpperCase name0;
                r1 = r\<lparr>errorMessage := []\<rparr>;
                r2 = r1\<lparr>currentPlayer :=
                        (currentPlayer r1)\<lparr>entryName := Str name1, entryRollNo := Str rollNo0\<rparr>\<rparr>;
                r3 = r2\<lparr>sentCommands := sentCommands r2 @ [''START'']\<rparr>;
                r4 = r3\<lparr>playerInfo := ''Now Playing: '' @ name1\<rparr>
            in startTimer now (switchScreen Game r4)))"

text \<open>\<^verbatim>\<open>finishGame\<close> up to the call of \<^verbatim>\<open>saveData\<close>: the renderer afterwards and the entry
  it sends, if any.\<close>

definition finishGame :: "string \<Rightarrow> int \<Rightarrow> renderer \<Rightarrow> renderer \<times> entry option" where
  "finishGame st now r =
     (case timerInterval r of
        None \<Rightarrow> (r, None)
      | Some tid \<Rightarrow>
          (let finalTime = (case startTime r of Some t0 \<Rightarrow> Fin (now - t0) | None \<Rightarrow> NaN);
               r1 = r\<lparr>intervals := removeAll tid (intervals r), timerInterval := None\<rparr>;
               r2 = r1\<lparr>currentPlayer := (currentPlayer r1)\<lparr>entryTime := finalTime, status := st\<rparr>\<rparr>
           in (r2, Some (currentPlayer r2))))"

section \<open>The serial connection (main.js)\<close>

text \<open>
  The global \<^verbatim>\<open>port\<close> (\<open>None\<close> while it is \<^verbatim>\<open>undefined\<close>), whether \<^verbatim>\<open>mainWindow\<close> is set,
  the events the \<^verbatim>\<open>SerialPort\<close> objects have fired and the channels of the messages sent
  to the renderer.  \<^verbatim>\<open>new SerialPort\<close> opens the device by itself; whether the open succeeds
  is the argument \<open>opens\<close>, and the object is taken at the moment its \<^verbatim>\<open>open\<close> or \<^verbatim>\<open>error\<close>
  event has fired.
\<close>

record serialport =
  portPath :: string
  isOpen :: bool

datatype serial_event = EvOpen string | EvClose string | EvError string

record mainproc =
  port :: "serialport option"
  mainWindow :: bool
  fired :: "serial_event list"
  toRenderer :: "string list"

definition createNewPort :: "string \<Rightarrow> bool \<Rightarrow> mainproc \<Rightarrow> mainproc" where
  "createNewPort path opens m =
     (let m1 = m\<lparr>port := Some \<lparr>portPath = path, isOpen = opens\<rparr>\<rparr>
      in if opens then m1\<lparr>fired := fired m1 @ [EvOpen path]\<rparr>
         else m1\<lparr>fired := fired m1 @ [EvError path],
                 toRenderer := toRenderer m1 @ (if mainWindow m1 then [''serial:error''] else [])\<rparr>)"

text \<open>\<^verbatim>\<open>port.close()\<close> on an open port: the object is closed and its \<^verbatim>\<open>close\<close> event
  fires, whose listener notifies the renderer.\<close>

definition closePort :: "mainproc \<Rightarrow> mainproc" where
  "closePort m =
     (case port m of
        None \<Rightarrow> m
      | Some p \<Rightarrow>
          m\<lparr>port := Some (p\<lparr>isOpen := False\<rparr>),
            fired := fired m @ [EvClose (portPath p)],
            toRenderer := toRenderer m @ (if mainWindow m then [''serial:closed''] else [])\<rparr>)"

definition portIsOpen :: "mainproc \<Rightarrow> bool" where
  "portIsOpen m = (case port m of None \<Rightarrow> False | Some p \<Rightarrow> isOpen p)"

definition connectToPort :: "string \<Rightarrow> bool \<Rightarrow> mainproc \<Rightarrow> mainproc" where
  "connectToPort path opens m =
     (if portIsOpen m then createNewPort path opens (closePort m)
      else createNewPort path opens m)"

text \<open>The main process once its window exists and before any port was created.\<close>

definition initialMain :: mainproc where
  "initialMain = \<lparr>port = None, mainWindow = True, fired = [], toRenderer = []\<rparr>"

text \<open>The \<^verbatim>\<open>window-all-closed\<close> listeners: \<^verbatim>\<open>if (port && port.isOpen) port.close()\<close>.\<close>

definition closeIfOpen :: "mainproc \<Rightarrow> mainproc" where
  "closeIfOpen m = (if portIsOpen m then closePort m else m)"


section \<open>Notions used in the statements\<close>

text \<open>What \<^verbatim>\<open>readData\<close> makes of a record that the handler wrote: the sanitizing
  assignments are applied to what the written cells are read back as.\<close>

definition reread :: "(string \<Rightarrow> jsval) \<Rightarrow> player \<Rightarrow> player" where
  "reread X p =
     p\<lparr> name := written X (name p),
        rollNo := toString (js_or (X (rollNo p)) (Str [])),
        time := (if truthy_num (time p) then time p else PInf),
        successes := or0 (successes p),
        defeats := or0 (defeats p) \<rparr>"

text \<open>From the records one call of the handler read to the records the next call reads.\<close>

definition reload :: "(string \<Rightarrow> jsval) \<Rightarrow> entry \<Rightarrow> player list \<Rightarrow> player list" where
  "reload X newEntry data =
     filter (\<lambda>p. rollNo p \<noteq> []) (map (reread X) (updateData newEntry data))"

text \<open>A string is read back from the workbook as it was written.\<close>

definition readsBack :: "(string \<Rightarrow> jsval) \<Rightarrow> string \<Rightarrow> bool" where
  "readsBack X s = (X s = Str s)"

text \<open>The cell of a written row in the \<^verbatim>\<open>HasImproved\<close> column, the sixth.\<close>

definition storedFlag :: "row \<Rightarrow> jsval" where
  "storedFlag r = r ! 5"

text \<open>The position at which the handler updates or creates the record of an outcome, and
  whether it sets the flag there: lines 248, 252 to 261 and 273.\<close>

definition target :: "entry \<Rightarrow> player list \<Rightarrow> nat" where
  "target newEntry data =
     (case findIndex (\<lambda>p. rollNo p = toString (entryRollNo newEntry)) data of
        None \<Rightarrow> length data | Some i \<Rightarrow> i)"

definition improves :: "entry \<Rightarrow> player list \<Rightarrow> bool" where
  "improves newEntry data =
     (status newEntry = ''success'' \<and>
      (case findIndex (\<lambda>p. rollNo p = toString (entryRollNo newEntry)) data of
         None \<Rightarrow> True
       | Some i \<Rightarrow> num_less (entryTime newEntry) (time (data ! i))))"

text \<open>The record of a roll number in a record set: the first one, as \<^verbatim>\<open>findIndex\<close> and the
  renderer's \<^verbatim>\<open>find\<close> take it.\<close>

definition playerOf :: "string \<Rightarrow> player list \<Rightarrow> player option" where
  "playerOf r data = find (\<lambda>p. rollNo p = r) data"

text \<open>The best time of a roll number in a record set: \<^verbatim>\<open>Infinity\<close> while the set holds no
  record of it.\<close>

definition bestTime :: "string \<Rightarrow> player list \<Rightarrow> jsnum" where
  "bestTime r data = (case playerOf r data of None \<Rightarrow> PInf | Some p \<Rightarrow> time p)"

text \<open>An outcome is a success of the player with roll number \<open>r\<close>.\<close>

definition successOf :: "string \<Rightarrow> entry \<Rightarrow> bool" where
  "successOf r newEntry = (toString (entryRollNo newEntry) = r \<and> status newEntry = ''success'')"

text \<open>The elapsed times of the successes of \<open>r\<close> among the outcomes applied, in the order
  of the calls.\<close>

fun successTimes :: "string \<Rightarrow> entry list \<Rightarrow> int list" where
  "successTimes r [] = []"
| "successTimes r (e # es) =
     (case entryTime e of
        Fin t \<Rightarrow> if successOf r e then t # successTimes r es else successTimes r es
      | _ \<Rightarrow> successTimes r es)"

text \<open>Sample inputs for the instances below: outcomes of the players \<^verbatim>\<open>p1\<close> and
  \<^verbatim>\<open>p2\<close>, and a string conversion under which no string is a number (the instances
  read workbooks the handler wrote, whose numeric cells hold numbers, so that the
  conversion is never applied in them).  Two ways for strings to come back from the
  workbook: every string as written, and every string as written but \<^verbatim>\<open>_x0041_\<close>, which
  comes back as \<^verbatim>\<open>A\<close> as it does from ExcelJS.\<close>

definition noNumber :: "string \<Rightarrow> jsnum" where
  "noNumber s = NaN"

definition asWritten :: "string \<Rightarrow> jsval" where
  "asWritten s = Str s"

definition decodesA :: "string \<Rightarrow> jsval" where
  "decodesA s = (if s = ''_x0041_'' then Str ''A'' else Str s)"

definition amy :: "string \<Rightarrow> int \<Rightarrow> entry" where
  "amy st t = \<lparr>entryName = Str ''AMY'', entryRollNo = Str ''p1'', entryTime = Fin t, status = st\<rparr>"

definition bo :: "string \<Rightarrow> int \<Rightarrow> entry" where
  "bo st t = \<lparr>entryName = Str ''BO'', entryRollNo = Str ''p2'', entryTime = Fin t, status = st\<rparr>"

section \<open>Properties of the embedded controller\<close>

text \<open>
  Claim C4.  The run state machine starts idle (\<^verbatim>\<open>gameIsActive\<close> false).  A line that trims
  to \<^verbatim>\<open>START\<close>, read while idle, makes it active and prints \<^verbatim>\<open>Game Started!\<close>; the pass
  that read it ends active unless the distance sampled in the same pass already meets the
  fallen condition.  While active, the command block changes nothing and prints nothing
  whatever line it reads (a second \<^verbatim>\<open>START\<close> included); a line that does not trim to
  \<^verbatim>\<open>START\<close> never changes anything in it, and an idle pass with such a line or with no
  line leaves the whole state as it was.  When the fallen condition holds in an active pass, the pass ends idle and prints
  exactly the one line \<^verbatim>\<open>FINISH\<close>; an active pass without it stays active and prints
  nothing.
\<close>

theorem run_state_machine:
  "\<not> gameIsActive (fst setup_ino)
   \<and> (\<not> gameIsActive s \<and> trim line = ''START'' \<longrightarrow>
        readCommand (Some line) s = (s\<lparr>gameIsActive := True\<rparr>, [''Game Started!''])
        \<and> gameIsActive (fst (loop (Some line) joyX joyY distance s)) = (\<not> fallen distance)
        \<and> snd (loop (Some line) joyX joyY distance s)
            = ''Game Started!'' # (if fallen distance then [''FINISH''] else []))
   \<and> (gameIsActive s \<longrightarrow> readCommand (Some line) s = (s, []))
   \<and> (trim line \<noteq> ''START'' \<longrightarrow> readCommand (Some line) s = (s, []))
   \<and> (\<not> gameIsActive s \<and> trim line \<noteq> ''START'' \<longrightarrow>
        loop (Some line) joyX joyY distance s = (s, []))
   \<and> (gameIsActive s \<and> fallen distance \<longrightarrow>
        \<not> gameIsActive (fst (loop input joyX joyY distance s))
        \<and> snd (loop input joyX joyY distance s) = [''FINISH''])
   \<and> (gameIsActive s \<and> \<not> fallen distance \<longrightarrow>
        gameIsActive (fst (loop input joyX joyY distance s))
        \<and> snd (loop input joyX joyY distance s) = [])
   \<and> (\<not> gameIsActive s \<longrightarrow> loop None joyX joyY distance s = (s, []))"
  by (simp add: setup_ino_def loop_def readCommand_def playTick_def Let_def split: option.split)

text \<open>The theorem at the initial state, at a state in a run, and at samples 0 and 3.\<close>

theorem run_state_machine_witness:
  "readCommand (Some '' START '') (fst setup_ino)
     = ((fst setup_ino)\<lparr>gameIsActive := True\<rparr>, [''Game Started!''])
   \<and> gameIsActive (fst (loop (Some '' START '') 512 512 0 (fst setup_ino)))
   \<and> snd (loop (Some '' START '') 512 512 0 (fst setup_ino)) = [''Game Started!'']
   \<and> readCommand (Some ''START'') ((fst setup_ino)\<lparr>gameIsActive := True\<rparr>)
     = ((fst setup_ino)\<lparr>gameIsActive := True\<rparr>, [])
   \<and> loop (Some ''STOP'') 512 512 3 (fst setup_ino) = (fst setup_ino, [])
   \<and> \<not> gameIsActive (fst (loop (Some ''START'') 512 512 3 ((fst setup_ino)\<lparr>gameIsActive := True\<rparr>)))
   \<and> snd (loop (Some ''START'') 512 512 3 ((fst setup_ino)\<lparr>gameIsActive := True\<rparr>)) = [''FINISH'']
   \<and> loop None 512 512 3 (fst setup_ino) = (fst setup_ino, [])"
proof -
  have idle: "\<not> gameIsActive (fst setup_ino)"
    by (simp add: setup_ino_def)
  have start: "trim '' START '' = ''START''" and stop: "trim ''STOP'' \<noteq> ''START''"
    by (simp_all add: trim_def isspace_def)
  have far: "\<not> fallen 0" and near: "fallen 3"
    by (simp_all add: fallen_def FALL_THRESHOLD_def word_sless_alt)
  show ?thesis
    using run_state_machine [where s = "fst setup_ino" and line = "'' START ''"
            and distance = 0 and joyX = 512 and joyY = 512]
          run_state_machine [where s = "(fst setup_ino)\<lparr>gameIsActive := True\<rparr>"
            and line = "''START''" and input = "Some ''START''" and distance = 3
            and joyX = 512 and joyY = 512]
          run_state_machine [where s = "fst setup_ino" and line = "''STOP''"
            and distance = 3 and joyX = 512 and joyY = 512]
          idle start stop far near
    by simp
qed

text \<open>
  Claim C5, as amended.  While a run is active one sample decides, with no debouncing: a
  pass whose sampled distance \<open>d\<close> satisfies \<open>0 < d < FALL_THRESHOLD\<close> ends the run and
  prints \<^verbatim>\<open>FINISH\<close>, and a pass with any other sample (0 and below, or the threshold and
  above) leaves the run active and prints nothing.
\<close>

theorem fall_needs_positive_sample:
  "gameIsActive s \<longrightarrow>
     (0 <s distance \<and> distance <s FALL_THRESHOLD \<longrightarrow>
        \<not> gameIsActive (fst (loop input joyX joyY distance s))
        \<and> snd (loop input joyX joyY distance s) = [''FINISH''])
     \<and> (\<not> (0 <s distance \<and> distance <s FALL_THRESHOLD) \<longrightarrow>
        gameIsActive (fst (loop input joyX joyY distance s))
        \<and> snd (loop input joyX joyY distance s) = [])"
  by (simp add: loop_def readCommand_def playTick_def fallen_def Let_def split: option.split)

text \<open>The theorem at the samples 4 and 5.\<close>

theorem fall_needs_positive_sample_witness:
  "\<not> gameIsActive (fst (loop None 512 512 4 \<lparr>gameIsActive = True, servoX = 90, servoY = 90\<rparr>))
   \<and> snd (loop None 512 512 4 \<lparr>gameIsActive = True, servoX = 90, servoY = 90\<rparr>) = [''FINISH'']
   \<and> gameIsActive (fst (loop None 512 512 5 \<lparr>gameIsActive = True, servoX = 90, servoY = 90\<rparr>))
   \<and> snd (loop None 512 512 5 \<lparr>gameIsActive = True, servoX = 90, servoY = 90\<rparr>) = []"
proof -
  have "(0::32 word) <s 4 \<and> (4::32 word) <s FALL_THRESHOLD"
    and "\<not> ((0::32 word) <s 5 \<and> (5::32 word) <s FALL_THRESHOLD)"
    by (simp_all add: FALL_THRESHOLD_def word_sless_alt)
  then show ?thesis
    using fall_needs_positive_sample [where s = "\<lparr>gameIsActive = True, servoX = 90, servoY = 90\<rparr>"
            and distance = 4 and input = None and joyX = 512 and joyY = 512]
          fall_needs_positive_sample [where s = "\<lparr>gameIsActive = True, servoX = 90, servoY = 90\<rparr>"
            and distance = 5 and input = None and joyX = 512 and joyY = 512]
    by simp
qed

text \<open>
  Claim C5 as stated fails at the sample 0, which is below the threshold (it is what
  \<^verbatim>\<open>getDistance\<close> returns when \<^verbatim>\<open>pulseIn\<close> times out): the run stays active and nothing is
  printed.
\<close>

theorem zero_sample_counterexample:
  "gameIsActive \<lparr>gameIsActive = True, servoX = 90, servoY = 90\<rparr>
   \<and> (0::32 word) <s FALL_THRESHOLD
   \<and> gameIsActive (fst (loop None 512 512 0 \<lparr>gameIsActive = True, servoX = 90, servoY = 90\<rparr>))
   \<and> snd (loop None 512 512 0 \<lparr>gameIsActive = True, servoX = 90, servoY = 90\<rparr>) = []"
  by (simp add: loop_def readCommand_def playTick_def fallen_def FALL_THRESHOLD_def
        word_sless_alt Let_def)

section \<open>Properties of the leaderboard\<close>

subsection \<open>Writing the records and reading them back\<close>

lemma headerKeyMap_headerCells:
  "headerKeyMap headerCells =
     [1 \<mapsto> KName, 2 \<mapsto> KRollNo, 3 \<mapsto> KTime, 4 \<mapsto> KSuccesses, 5 \<mapsto> KDefeats, 6 \<mapsto> KHasImproved]"
  by (simp add: headerKeyMap_def headerCells_def excelColumns_def eachCell_def enumerate_eq_zip
        columnDef_def upt_rec eval_nat_numeral)

lemma written_simps [simp]:
  "written X Undefined = Null" "written X Null = Null" "written X (Bool b) = Bool b"
  "written X (Num n) = Num n" "written X (Str s) = X s"
  by (simp_all add: written_def)

lemma readRow_addRow:
  "readRow (headerKeyMap headerCells) (addRow X p) = (\<lambda>k. written X (playerField p k))"
proof
  fix k show "readRow (headerKeyMap headerCells) (addRow X p) k = written X (playerField p k)"
    by (cases k) (simp_all add: headerKeyMap_headerCells readRow_def addRow_def excelColumns_def
        eachCellIncludeEmpty_def enumerate_eq_zip upt_rec)
qed

lemma toLowerCase_bool: "toLowerCase ''true'' = ''true''" "toLowerCase ''false'' \<noteq> ''true''"
  by (simp_all add: toLowerCase_def lower_char_def)

lemma sanitize_addRow:
  "sanitize S (readRow (headerKeyMap headerCells) (addRow X p)) = reread X p"
  by (simp add: readRow_addRow sanitize_def reread_def toLowerCase_bool)

lemma hasValues_addRow: "hasValues (addRow X p)"
  by (simp add: hasValues_def addRow_def excelColumns_def)

lemma hasValues_headerCells: "hasValues headerCells"
  by (simp add: hasValues_def headerCells_def excelColumns_def)

lemma readRows_addRows:
  "1 < n \<Longrightarrow> readRows S (headerKeyMap headerCells) (enumerate n (map (addRow X) data))
     = filter (\<lambda>p. rollNo p \<noteq> []) (map (reread X) data)"
  by (induction data arbitrary: n) (simp_all add: sanitize_addRow Let_def)

lemma eachRow_written:
  "eachRow (headerCells # map (addRow X) data)
     = (1, headerCells) # enumerate 2 (map (addRow X) data)"
proof -
  have "filter (\<lambda>(rowNumber, r). hasValues r) (enumerate n (map (addRow X) data))
          = enumerate n (map (addRow X) data)" for n
    by (induction data arbitrary: n) (simp_all add: hasValues_addRow)
  then show ?thesis
    by (simp add: eachRow_def hasValues_headerCells numeral_2_eq_2)
qed

lemma readData_newWorkbook:
  "readData S (newWorkbook X data) = filter (\<lambda>p. rollNo p \<noteq> []) (map (reread X) data)"
proof (cases "data = []")
  case True
  then show ?thesis
    by (simp add: readData_def newWorkbook_def getWorksheet_def rowCount_def)
next
  case False
  then have "\<not> rowCount (headerCells # map (addRow X) data) \<le> 1"
    by (simp add: rowCount_def)
  then show ?thesis
    by (simp add: readData_def newWorkbook_def getWorksheet_def hasValues_headerCells
          eachRow_written readRows_addRows del: list.map)
qed

lemma readData_saveData:
  "readData S (fst (saveData X S None f e)) = reload X e (readData S f)"
  by (simp add: saveData_def readData_newWorkbook reload_def)

text \<open>A record whose roll number is read back as written keeps it, and the sanitizing
  assignments change nothing when they are applied a second time.\<close>

lemma rollNo_reread: "readsBack X (rollNo p) \<Longrightarrow> rollNo (reread X p) = rollNo p"
  by (simp add: reread_def readsBack_def js_or_def)

lemma hasImproved_reread [simp]: "hasImproved (reread X p) = hasImproved p"
  by (simp add: reread_def)

lemma time_reread: "time (reread X p) = (if truthy_num (time p) then time p else PInf)"
  by (simp add: reread_def)

lemma or0_or0 [simp]: "or0 (or0 n) = or0 n"
  by (simp add: or0_def)

lemma counts_reread:
  "successes (reread X p) = or0 (successes p)" "defeats (reread X p) = or0 (defeats p)"
  by (simp_all add: reread_def)

subsection \<open>The update of the record set\<close>

lemma findIndex_Some:
  "findIndex P xs = Some i \<Longrightarrow> i < length xs \<and> P (xs ! i) \<and> (\<forall>j<i. \<not> P (xs ! j))"
proof (induction xs arbitrary: i)
  case Nil
  then show ?case by simp
next
  case (Cons x xs)
  show ?case
  proof (cases "P x")
    case True
    with Cons.prems show ?thesis by simp
  next
    case False
    with Cons.prems obtain k where k: "findIndex P xs = Some k" "i = Suc k"
      by auto
    from Cons.IH [OF k(1)] False k(2) show ?thesis
      by (auto simp: nth_Cons split: nat.split)
  qed
qed

lemma updateData_Nil: "updateData e [] = [newPlayer e]"
  by (simp add: updateData_def)

lemma updateData_Cons:
  "updateData e (p # d) =
     (if rollNo p = toString (entryRollNo e)
      then updatePlayer e (p\<lparr>hasImproved := False\<rparr>) # map (\<lambda>p. p\<lparr>hasImproved := False\<rparr>) d
      else p\<lparr>hasImproved := False\<rparr> # updateData e d)"
  by (cases "findIndex (\<lambda>p. rollNo p = toString (entryRollNo e)) d")
     (simp_all add: updateData_def Let_def)

lemma updateData_absent:
  "findIndex (\<lambda>p. rollNo p = toString (entryRollNo e)) d = None \<Longrightarrow>
   updateData e d = map (\<lambda>p. p\<lparr>hasImproved := False\<rparr>) d @ [newPlayer e]"
  by (simp add: updateData_def)

lemma updateData_present:
  "findIndex (\<lambda>p. rollNo p = toString (entryRollNo e)) d = Some i \<Longrightarrow>
   updateData e d = (map (\<lambda>p. p\<lparr>hasImproved := False\<rparr>) d)
                      [i := updatePlayer e ((d ! i)\<lparr>hasImproved := False\<rparr>)]"
  by (frule findIndex_Some) (simp add: updateData_def)

lemma hasImproved_updatePlayer:
  "hasImproved (updatePlayer e (p\<lparr>hasImproved := False\<rparr>))
     \<longleftrightarrow> status e = ''success'' \<and> num_less (entryTime e) (time p)"
  by (simp add: updatePlayer_def Let_def)

lemma target_simps:
  "target e [] = 0"
  "target e (p # d) = (if rollNo p = toString (entryRollNo e) then 0 else Suc (target e d))"
  by (simp_all add: target_def split: option.split)

lemma improves_simps:
  "improves e [] = (status e = ''success'')"
  "improves e (p # d) =
     (if rollNo p = toString (entryRollNo e)
      then status e = ''success'' \<and> num_less (entryTime e) (time p)
      else improves e d)"
  by (auto simp: improves_def split: option.split)

lemma target_in_range: "target e d < length (updateData e d)"
  by (induction d) (simp_all add: updateData_Nil updateData_Cons target_simps)

text \<open>The records that carry the flag after the update: the one at the target, if the
  outcome improves, and no other.\<close>

lemma improved_after_update:
  "filter hasImproved (updateData e d)
     = (if improves e d then [updateData e d ! target e d] else [])"
  by (induction d)
     (simp_all add: updateData_Nil updateData_Cons target_simps improves_simps newPlayer_def
        hasImproved_updatePlayer filter_map o_def)

lemma flags_after_update:
  "j < length (updateData e d) \<Longrightarrow>
   hasImproved (updateData e d ! j) \<longleftrightarrow> j = target e d \<and> improves e d"
proof (induction d arbitrary: j)
  case Nil
  then show ?case
    by (simp add: updateData_Nil target_simps improves_simps newPlayer_def)
next
  case (Cons p d)
  then show ?case
    by (cases j)
       (auto simp: updateData_Cons target_simps improves_simps hasImproved_updatePlayer)
qed

lemma storedFlag_addRow: "storedFlag (addRow X p) = Bool (hasImproved p)"
  by (simp add: storedFlag_def addRow_def excelColumns_def)

lemma flagged_rows:
  "filter (\<lambda>r. storedFlag r = Bool True) (map (addRow X) data)
     = map (addRow X) (filter hasImproved data)"
  by (induction data) (simp_all add: storedFlag_addRow)

lemma flagged_read_back:
  "filter hasImproved (filter (\<lambda>p. rollNo p \<noteq> []) (map (reread X) data))
     = filter (\<lambda>p. rollNo p \<noteq> []) (map (reread X) (filter hasImproved data))"
  by (induction data) simp_all

text \<open>
  Claim C2, as amended.  One call of the handler whose write completes persists a row
  for each record of \<open>updateData newEntry (readData S f)\<close>.  The \<^verbatim>\<open>HasImproved\<close> cell of the
  row at position \<open>j\<close> holds \<^verbatim>\<open>true\<close> exactly when \<open>j\<close> is the position of the record of
  the outcome's player and the outcome improves: it is a success, and either no record
  with its roll number was loaded (the record was just created), or its time is below the
  best time \<^verbatim>\<open>readData\<close> loaded for that record.  That loaded best time is \<^verbatim>\<open>Infinity\<close>
  for a player without a success and also for a stored best time of 0, so the first
  success of a player who had only defeats sets the flag, and so does any success that
  follows a stored best time of 0.  Every other row holds \<^verbatim>\<open>false\<close>; so at most one row
  holds \<^verbatim>\<open>true\<close>, and the records with the flag that the next read returns are that one
  record if the outcome improves and the row is not dropped, and none otherwise.
\<close>

theorem improved_flag_after_save:
  "let data = readData S f;
       data' = updateData newEntry data;
       rows = map (addRow X) data'
   in saveData X S None f newEntry = (Workbook [(''Leaderboard'', headerCells # rows)], SaveOk)
      \<and> target newEntry data < length rows
      \<and> (\<forall>j<length rows.
            storedFlag (rows ! j) = Bool (j = target newEntry data \<and> improves newEntry data))
      \<and> length (filter (\<lambda>r. storedFlag r = Bool True) rows) \<le> 1
      \<and> filter hasImproved (readData S (fst (saveData X S None f newEntry)))
          = (if improves newEntry data
             then filter (\<lambda>p. rollNo p \<noteq> []) [reread X (data' ! target newEntry data)]
             else [])
      \<and> (\<forall>i t. findIndex (\<lambda>p. rollNo p = toString (entryRollNo newEntry)) data = Some i
                 \<and> time (data ! i) = PInf
                 \<and> status newEntry = ''success'' \<and> entryTime newEntry = Fin t
               \<longrightarrow> improves newEntry data)"
proof -
  define data where "data = readData S f"
  define data' where "data' = updateData newEntry data"
  have 1: "saveData X S None f newEntry
             = (Workbook [(''Leaderboard'', headerCells # map (addRow X) data')], SaveOk)"
    by (simp add: saveData_def newWorkbook_def data_def data'_def)
  have 2: "target newEntry data < length (map (addRow X) data')"
    by (simp add: data'_def target_in_range)
  have 3: "\<forall>j<length (map (addRow X) data').
            storedFlag (map (addRow X) data' ! j)
              = Bool (j = target newEntry data \<and> improves newEntry data)"
    by (simp add: storedFlag_addRow data'_def flags_after_update)
  have 4: "length (filter (\<lambda>r. storedFlag r = Bool True) (map (addRow X) data')) \<le> 1"
    by (simp add: flagged_rows data'_def improved_after_update)
  have 5: "filter hasImproved (readData S (fst (saveData X S None f newEntry)))
          = (if improves newEntry data
             then filter (\<lambda>p. rollNo p \<noteq> []) [reread X (data' ! target newEntry data)]
             else [])"
  proof -
    have "filter hasImproved (readData S (fst (saveData X S None f newEntry)))
            = filter hasImproved (filter (\<lambda>p. rollNo p \<noteq> []) (map (reread X) data'))"
      by (simp only: readData_saveData reload_def data_def data'_def)
    also have "\<dots> = filter (\<lambda>p. rollNo p \<noteq> []) (map (reread X) (filter hasImproved data'))"
      by (rule flagged_read_back)
    also have "filter hasImproved data'
                 = (if improves newEntry data then [data' ! target newEntry data] else [])"
      unfolding data'_def by (rule improved_after_update)
    finally show ?thesis
      by (simp split: if_splits)
  qed
  have 6: "\<forall>i t. findIndex (\<lambda>p. rollNo p = toString (entryRollNo newEntry)) data = Some i
                 \<and> time (data ! i) = PInf
                 \<and> status newEntry = ''success'' \<and> entryTime newEntry = Fin t
               \<longrightarrow> improves newEntry data"
    by (auto simp: improves_def)
  from 1 2 3 4 5 6 show ?thesis
    unfolding Let_def data_def data'_def by blast
qed


text \<open>The theorem at a store that holds one success of 5000 ms, for a success of 4000 ms
  and for one of 7000 ms of the same player.\<close>

theorem improved_flag_after_save_witness:
  "improves (amy ''success'' 4000)
     (readData noNumber (newWorkbook asWritten [newPlayer (amy ''success'' 5000)]))
   \<and> \<not> improves (amy ''success'' 7000)
     (readData noNumber (newWorkbook asWritten [newPlayer (amy ''success'' 5000)]))
   \<and> storedFlag (map (addRow asWritten) (updateData (amy ''success'' 4000)
        (readData noNumber (newWorkbook asWritten [newPlayer (amy ''success'' 5000)]))) ! 0)
       = Bool True
   \<and> storedFlag (map (addRow asWritten) (updateData (amy ''success'' 7000)
        (readData noNumber (newWorkbook asWritten [newPlayer (amy ''success'' 5000)]))) ! 0)
       = Bool False"
proof -
  define F where "F = newWorkbook asWritten [newPlayer (amy ''success'' 5000)]"
  define p where "p = \<lparr>name = Str ''AMY'', rollNo = ''p1'', time = Fin 5000, successes = Fin 1,
                        defeats = Fin 0, hasImproved = True\<rparr>"
  have d: "readData noNumber F = [p]"
    by (simp add: F_def p_def readData_newWorkbook reread_def newPlayer_def amy_def
          asWritten_def js_or_def or0_def)
  have t: "target (amy ''success'' u) [p] = 0" for u
    by (simp add: target_simps p_def amy_def)
  have i: "improves (amy ''success'' u) [p] = (u < 5000)" for u
    by (simp add: improves_simps p_def amy_def)
  have l: "0 < length (map (addRow asWritten) (updateData (amy ''success'' u) [p]))" for u
    by (simp add: updateData_Cons p_def amy_def)
  have flag: "storedFlag (map (addRow asWritten) (updateData (amy ''success'' u) [p]) ! 0)
                = Bool (u < 5000)" for u
  proof -
    have "\<forall>j<length (map (addRow asWritten) (updateData (amy ''success'' u) [p])).
            storedFlag (map (addRow asWritten) (updateData (amy ''success'' u) [p]) ! j)
              = Bool (j = 0 \<and> u < 5000)"
      using improved_flag_after_save [of noNumber F "amy ''success'' u" asWritten]
      unfolding Let_def d t i by (elim conjE)
    with l [of u] show ?thesis
      by auto
  qed
  show ?thesis
    using flag [of 4000] flag [of 7000] i [of 4000] i [of 7000]
    unfolding F_def [symmetric] d by simp
qed

text \<open>
  Claim C2 as stated fails after a success of 0 ms.  The store then holds the best time 0
  and one success for the player; a further success of 5000 ms of the same player is
  written with the flag \<^verbatim>\<open>true\<close>, although it is not the player's first success and the
  stored best time went up from 0 to 5000.
\<close>

theorem flag_after_zero_counterexample:
  "saveAll asWritten noNumber Missing [amy ''success'' 0]
     = Workbook [(''Leaderboard'',
         [headerCells, [Str ''AMY'', Str ''p1'', Num (Fin 0), Num (Fin 1), Num (Fin 0), Bool True]])]
   \<and> saveData asWritten noNumber None
        (Workbook [(''Leaderboard'',
           [headerCells, [Str ''AMY'', Str ''p1'', Num (Fin 0), Num (Fin 1), Num (Fin 0), Bool True]])])
        (amy ''success'' 5000)
     = (Workbook [(''Leaderboard'',
          [headerCells, [Str ''AMY'', Str ''p1'', Num (Fin 5000), Num (Fin 2), Num (Fin 0), Bool True]])],
        SaveOk)"
proof -
  define p0 where "p0 = \<lparr>name = Str ''AMY'', rollNo = ''p1'', time = Fin 0, successes = Fin 1,
                          defeats = Fin 0, hasImproved = True\<rparr>"
  define p1 where "p1 = \<lparr>name = Str ''AMY'', rollNo = ''p1'', time = Fin 5000, successes = Fin 2,
                          defeats = Fin 0, hasImproved = True\<rparr>"
  have w0: "newWorkbook asWritten [p0] = Workbook [(''Leaderboard'',
         [headerCells, [Str ''AMY'', Str ''p1'', Num (Fin 0), Num (Fin 1), Num (Fin 0), Bool True]])]"
    and w1: "newWorkbook asWritten [p1] = Workbook [(''Leaderboard'',
         [headerCells, [Str ''AMY'', Str ''p1'', Num (Fin 5000), Num (Fin 2), Num (Fin 0), Bool True]])]"
    by (simp_all add: newWorkbook_def addRow_def excelColumns_def asWritten_def p0_def p1_def)
  have f1: "fst (saveData asWritten noNumber None Missing (amy ''success'' 0))
              = newWorkbook asWritten [p0]"
    by (simp add: saveData_def readData_def updateData_Nil newPlayer_def amy_def p0_def)
  have d1: "readData noNumber (newWorkbook asWritten [p0]) = [p0\<lparr>time := PInf\<rparr>]"
    by (simp add: readData_newWorkbook reread_def p0_def asWritten_def js_or_def or0_def)
  have u: "updateData (amy ''success'' 5000) [p0\<lparr>time := PInf\<rparr>] = [p1]"
    by (simp add: updateData_Cons updatePlayer_def amy_def p0_def p1_def or0_def Let_def)
  have f2: "saveData asWritten noNumber None (newWorkbook asWritten [p0]) (amy ''success'' 5000)
              = (newWorkbook asWritten [p1], SaveOk)"
    by (simp add: saveData_def d1 u)
  show ?thesis
    using f1 f2 by (simp add: w0 w1)
qed

subsection \<open>Reading a store\<close>

text \<open>
  Claim C8.  \<^verbatim>\<open>readData\<close> returns the empty record set, and raises nothing, when the file
  is absent, has size 0, cannot be parsed, holds no sheet named \<^verbatim>\<open>Leaderboard\<close>, or holds
  one with at most one row or without a value in its first row.  Whenever the read
  returned the empty set, a call of the handler whose write completes leaves a workbook
  whose sheet \<^verbatim>\<open>Leaderboard\<close> consists of the header row and the row of the new record,
  and the next read returns that record as it is read back, unless the roll number read
  back is the empty string; where the roll number is read back as it was written, that
  is unless the roll number of the outcome prints as the empty string.
\<close>

theorem unusable_store_reads_empty:
  "readData S Missing = [] \<and> readData S ZeroBytes = [] \<and> readData S Unreadable = []
   \<and> (getWorksheet sheets ''Leaderboard'' = None \<longrightarrow> readData S (Workbook sheets) = [])
   \<and> (getWorksheet sheets ''Leaderboard'' = Some sh \<and> (rowCount sh \<le> 1 \<or> \<not> hasValues (sh ! 0))
        \<longrightarrow> readData S (Workbook sheets) = [])
   \<and> (readData S f = [] \<longrightarrow>
        saveData X S None f newEntry
          = (Workbook [(''Leaderboard'', [headerCells, addRow X (newPlayer newEntry)])], SaveOk)
        \<and> readData S (fst (saveData X S None f newEntry))
          = (if rollNo (reread X (newPlayer newEntry)) = [] then []
             else [reread X (newPlayer newEntry)])
        \<and> (readsBack X (toString (entryRollNo newEntry)) \<longrightarrow>
             readData S (fst (saveData X S None f newEntry))
               = (if toString (entryRollNo newEntry) = [] then []
                  else [reread X (newPlayer newEntry)])))"
proof -
  have 1: "readData S (newWorkbook X [newPlayer newEntry])
          = (if rollNo (reread X (newPlayer newEntry)) = [] then []
             else [reread X (newPlayer newEntry)])"
    by (simp add: readData_newWorkbook)
  have 2: "rollNo (reread X (newPlayer newEntry)) = toString (entryRollNo newEntry)"
    if "readsBack X (toString (entryRollNo newEntry))"
    using that rollNo_reread [of X "newPlayer newEntry"] by (simp add: newPlayer_def)
  have 3: "saveData X S None f newEntry = (newWorkbook X [newPlayer newEntry], SaveOk)"
    if "readData S f = []"
    using that by (simp add: saveData_def updateData_Nil)
  have 4: "newWorkbook X [newPlayer newEntry]
             = Workbook [(''Leaderboard'', [headerCells, addRow X (newPlayer newEntry)])]"
    by (simp add: newWorkbook_def)
  have "readData S Missing = [] \<and> readData S ZeroBytes = [] \<and> readData S Unreadable = []
   \<and> (getWorksheet sheets ''Leaderboard'' = None \<longrightarrow> readData S (Workbook sheets) = [])
   \<and> (getWorksheet sheets ''Leaderboard'' = Some sh \<and> (rowCount sh \<le> 1 \<or> \<not> hasValues (sh ! 0))
        \<longrightarrow> readData S (Workbook sheets) = [])"
    by (auto simp: readData_def)
  with 1 2 3 4 show ?thesis
    by auto
qed

text \<open>The theorem at a workbook without the sheet, at one whose sheet has the header row
  only, and at a first success saved over an absent file.\<close>

theorem unusable_store_reads_empty_witness:
  "getWorksheet [(''Sheet1'', [[Str ''x'']])] ''Leaderboard'' = None
   \<and> readData noNumber (Workbook [(''Sheet1'', [[Str ''x'']])]) = []
   \<and> getWorksheet [(''Leaderboard'', [headerCells])] ''Leaderboard'' = Some [headerCells]
   \<and> rowCount [headerCells] \<le> 1
   \<and> readData noNumber (Workbook [(''Leaderboard'', [headerCells])]) = []
   \<and> readData noNumber Missing = []
   \<and> saveData asWritten noNumber None Missing (amy ''success'' 5000)
        = (Workbook [(''Leaderboard'',
             [headerCells, [Str ''AMY'', Str ''p1'', Num (Fin 5000), Num (Fin 1), Num (Fin 0), Bool True]])],
           SaveOk)
   \<and> readData noNumber (fst (saveData asWritten noNumber None Missing (amy ''success'' 5000)))
        = [\<lparr>name = Str ''AMY'', rollNo = ''p1'', time = Fin 5000, successes = Fin 1,
             defeats = Fin 0, hasImproved = True\<rparr>]"
proof -
  have a: "getWorksheet [(''Sheet1'', [[Str ''x'']])] ''Leaderboard'' = None"
    and b: "getWorksheet [(''Leaderboard'', [headerCells])] ''Leaderboard'' = Some [headerCells]"
    and c: "rowCount [headerCells] \<le> 1"
    by (simp_all add: getWorksheet_def rowCount_def)
  have row: "addRow asWritten (newPlayer (amy ''success'' 5000))
               = [Str ''AMY'', Str ''p1'', Num (Fin 5000), Num (Fin 1), Num (Fin 0), Bool True]"
    by (simp add: addRow_def newPlayer_def amy_def excelColumns_def asWritten_def)
  have rec: "reread asWritten (newPlayer (amy ''success'' 5000))
               = \<lparr>name = Str ''AMY'', rollNo = ''p1'', time = Fin 5000, successes = Fin 1,
                   defeats = Fin 0, hasImproved = True\<rparr>"
    by (simp add: reread_def newPlayer_def amy_def asWritten_def js_or_def or0_def)
  show ?thesis
    using unusable_store_reads_empty [of noNumber "[(''Sheet1'', [[Str ''x'']])]" "[headerCells]"
            Missing asWritten "amy ''success'' 5000"]
          unusable_store_reads_empty [of noNumber "[(''Leaderboard'', [headerCells])]" "[headerCells]"
            Missing asWritten "amy ''success'' 5000"]
          a b c row rec
    by simp
qed


text \<open>The sort rearranges: it neither adds nor loses a record.\<close>

lemma set_insert_by: "set (insert_by cmp x xs) = insert x (set xs)"
  by (induction xs) auto

lemma set_sort_by: "set (sort_by cmp xs) = set xs"
  by (induction xs) (simp_all add: sort_by_def set_insert_by)

lemma ranked_has_time:
  "p \<in> set (renderLeaderboard data) \<Longrightarrow> p \<in> set data \<and> time p \<noteq> PInf"
  using set_take_subset [of 10 "sortedData data"]
  by (auto simp: renderLeaderboard_def sortedData_def set_sort_by)

lemma readRows_member:
  "(n, r) \<in> set rows \<Longrightarrow> 1 < n \<Longrightarrow> rollNo (sanitize S (readRow hk r)) \<noteq> [] \<Longrightarrow>
   sanitize S (readRow hk r) \<in> set (readRows S hk rows)"
  by (induction rows) (auto simp: Let_def)

text \<open>
  Claim C9.  Take any workbook that \<^verbatim>\<open>readData\<close> reads through (a sheet \<^verbatim>\<open>Leaderboard\<close>
  with more than one row and a value in its first row) and any of its rows after the
  first.  If what the row holds under the key \<^verbatim>\<open>time\<close>, that is in the \<^verbatim>\<open>BestTime\<close>
  column, is nothing, an empty cell or the number 0, then the record made from the row has
  \<^verbatim>\<open>time = Infinity\<close>; \<^verbatim>\<open>readData\<close> returns that record if the row has a roll number; and
  the ranked view \<^verbatim>\<open>renderLeaderboard\<close> draws does not contain it.
\<close>

theorem zero_best_time_reads_as_none:
  assumes "getWorksheet sheets ''Leaderboard'' = Some sh"
    and "1 < rowCount sh" and "hasValues (sh ! 0)"
    and "(n, r) \<in> set (eachRow sh)" and "1 < n"
    and "raw = readRow (headerKeyMap (sh ! 0)) r"
    and "raw KTime = Undefined \<or> raw KTime = Null \<or> raw KTime = Num (Fin 0)"
  shows "time (sanitize S raw) = PInf
         \<and> (rollNo (sanitize S raw) \<noteq> [] \<longrightarrow>
               sanitize S raw \<in> set (readData S (Workbook sheets)))
         \<and> sanitize S raw \<notin> set (renderLeaderboard (readData S (Workbook sheets)))"
proof -
  have 1: "sanitize S raw \<in> set (readData S (Workbook sheets))"
    if "rollNo (sanitize S raw) \<noteq> []"
  proof -
    have "sanitize S raw \<in> set (readRows S (headerKeyMap (sh ! 0)) (eachRow sh))"
      using assms(4,5,6) that by (simp add: readRows_member)
    then show ?thesis
      using assms(1,2,3) by (simp add: readData_def)
  qed
  have 2: "time (sanitize S raw) = PInf"
    using assms(7) by (auto simp: sanitize_def)
  from 2 have "sanitize S raw \<notin> set (renderLeaderboard (readData S (Workbook sheets)))"
    using ranked_has_time by blast
  with 1 2 show ?thesis by simp
qed

text \<open>The theorem at the workbook the handler writes for a first success of 0 ms: the row
  holds the number 0 in the \<^verbatim>\<open>BestTime\<close> column.\<close>

theorem zero_best_time_reads_as_none_witness:
  "fst (saveData asWritten noNumber None Missing (amy ''success'' 0))
     = Workbook [(''Leaderboard'',
         [headerCells, [Str ''AMY'', Str ''p1'', Num (Fin 0), Num (Fin 1), Num (Fin 0), Bool True]])]
   \<and> readData noNumber (fst (saveData asWritten noNumber None Missing (amy ''success'' 0)))
     = [\<lparr>name = Str ''AMY'', rollNo = ''p1'', time = PInf, successes = Fin 1,
          defeats = Fin 0, hasImproved = True\<rparr>]
   \<and> \<lparr>name = Str ''AMY'', rollNo = ''p1'', time = PInf, successes = Fin 1,
          defeats = Fin 0, hasImproved = True\<rparr>
       \<notin> set (renderLeaderboard
             (readData noNumber (fst (saveData asWritten noNumber None Missing (amy ''success'' 0)))))"
proof -
  define r where "r = [Str ''AMY'', Str ''p1'', Num (Fin 0), Num (Fin 1), Num (Fin 0), Bool True]"
  define sh where "sh = [headerCells, r]"
  define raw where "raw = readRow (headerKeyMap (sh ! 0)) r"
  have r: "r = addRow asWritten (newPlayer (amy ''success'' 0))"
    by (simp add: r_def addRow_def newPlayer_def amy_def excelColumns_def asWritten_def)
  have f: "fst (saveData asWritten noNumber None Missing (amy ''success'' 0))
             = Workbook [(''Leaderboard'', sh)]"
    by (simp add: saveData_def readData_def updateData_Nil newWorkbook_def sh_def r)
  have raw: "raw = (\<lambda>k. written asWritten (playerField (newPlayer (amy ''success'' 0)) k))"
    by (simp add: raw_def sh_def r readRow_addRow)
  have s: "sanitize noNumber raw
             = \<lparr>name = Str ''AMY'', rollNo = ''p1'', time = PInf, successes = Fin 1,
                 defeats = Fin 0, hasImproved = True\<rparr>"
    using sanitize_addRow [of noNumber asWritten "newPlayer (amy ''success'' 0)"]
    by (simp add: raw_def sh_def r reread_def newPlayer_def amy_def asWritten_def js_or_def
          or0_def)
  have h1: "getWorksheet [(''Leaderboard'', sh)] ''Leaderboard'' = Some sh"
    and h2: "1 < rowCount sh" and h3: "hasValues (sh ! 0)"
    and h4: "(2, r) \<in> set (eachRow sh)"
    by (simp_all add: getWorksheet_def rowCount_def sh_def hasValues_headerCells eachRow_def
          r hasValues_addRow)
  have h7: "raw KTime = Undefined \<or> raw KTime = Null \<or> raw KTime = Num (Fin 0)"
    by (simp add: raw newPlayer_def amy_def)
  have h8: "rollNo (sanitize noNumber raw) \<noteq> []"
    by (simp add: s)
  have d: "readData noNumber (Workbook [(''Leaderboard'', sh)])
             = [\<lparr>name = Str ''AMY'', rollNo = ''p1'', time = PInf, successes = Fin 1,
                  defeats = Fin 0, hasImproved = True\<rparr>]"
    using readData_newWorkbook [of noNumber asWritten "[newPlayer (amy ''success'' 0)]"]
    by (simp add: newWorkbook_def sh_def r reread_def newPlayer_def amy_def asWritten_def
          js_or_def or0_def)
  from zero_best_time_reads_as_none [OF h1 h2 h3 h4 _ raw_def h7, of noNumber] h8
  show ?thesis
    using f d s by (simp add: sh_def r_def)
qed

subsection \<open>Matching a player by roll number\<close>

lemma findIndex_map: "findIndex P (map f xs) = findIndex (\<lambda>x. P (f x)) xs"
  by (induction xs) simp_all

lemma findIndex_rollNo:
  "map rollNo xs = map rollNo ys \<Longrightarrow>
   findIndex (\<lambda>p. rollNo p = r) xs = findIndex (\<lambda>p. rollNo p = r) ys"
  using findIndex_map [of "\<lambda>s. s = r" rollNo xs] findIndex_map [of "\<lambda>s. s = r" rollNo ys]
  by simp

lemma findIndex_append_last:
  "findIndex P xs = None \<Longrightarrow> P x \<Longrightarrow> findIndex P (xs @ [x]) = Some (length xs)"
  by (induction xs) (auto split: if_splits)

lemma rollNo_updatePlayer [simp]: "rollNo (updatePlayer e p) = rollNo p"
  by (simp add: updatePlayer_def Let_def)

lemma rollNo_newPlayer [simp]: "rollNo (newPlayer e) = toString (entryRollNo e)"
  by (simp add: newPlayer_def)

lemma map_rollNo_present:
  assumes "findIndex (\<lambda>p. rollNo p = toString (entryRollNo e)) d = Some i"
  shows "map rollNo (updateData e d) = map rollNo d"
proof -
  from assms have "i < length d"
    by (auto dest: findIndex_Some)
  then have "(map rollNo d)[i := rollNo (d ! i)] = map rollNo d"
    by (simp add: list_update_same_conv)
  with assms show ?thesis
    by (simp add: updateData_present map_update o_def)
qed

lemma map_rollNo_absent:
  "findIndex (\<lambda>p. rollNo p = toString (entryRollNo e)) d = None \<Longrightarrow>
   map rollNo (updateData e d) = map rollNo d @ [toString (entryRollNo e)]"
  by (simp add: updateData_absent o_def)

lemma length_updateData:
  "length (updateData e d) =
     (case findIndex (\<lambda>p. rollNo p = toString (entryRollNo e)) d of
        None \<Rightarrow> Suc (length d) | Some i \<Rightarrow> length d)"
  by (auto simp: updateData_absent updateData_present split: option.split)

text \<open>Where the record of the outcome's player stands after the update.\<close>

lemma findIndex_updateData:
  "findIndex (\<lambda>p. rollNo p = toString (entryRollNo e)) (updateData e d) =
     Some (case findIndex (\<lambda>p. rollNo p = toString (entryRollNo e)) d of
             None \<Rightarrow> length d | Some i \<Rightarrow> i)"
proof (cases "findIndex (\<lambda>p. rollNo p = toString (entryRollNo e)) d")
  case None
  then have "findIndex (\<lambda>p. rollNo p = toString (entryRollNo e))
               (map (\<lambda>p. p\<lparr>hasImproved := False\<rparr>) d) = None"
    by (simp add: findIndex_map)
  then show ?thesis
    using None findIndex_append_last [of "\<lambda>p. rollNo p = toString (entryRollNo e)"
        "map (\<lambda>p. p\<lparr>hasImproved := False\<rparr>) d" "newPlayer e"]
    by (simp add: updateData_absent)
next
  case (Some i)
  then show ?thesis
    using findIndex_rollNo [OF map_rollNo_present [OF Some], of "toString (entryRollNo e)"]
    by simp
qed

text \<open>No record read has an empty roll number.  If the roll numbers of the records and of
  the outcome are read back as written, and the outcome's is not empty, no record is lost
  and no roll number changes between one call and the next.\<close>

lemma readRows_rollNo: "p \<in> set (readRows S hk rows) \<Longrightarrow> rollNo p \<noteq> []"
  by (induction rows) (auto simp: Let_def split: if_splits)

lemma readData_rollNo: "p \<in> set (readData S f) \<Longrightarrow> rollNo p \<noteq> []"
  by (auto simp: readData_def Let_def dest: readRows_rollNo
        split: xlsx_file.splits option.splits if_splits)

lemma reload_rollNo: "p \<in> set (reload X e d) \<Longrightarrow> rollNo p \<noteq> []"
  by (simp add: reload_def)

lemma rollNo_updateData:
  "p \<in> set (updateData e d) \<Longrightarrow> rollNo p \<in> insert (toString (entryRollNo e)) (rollNo ` set d)"
proof -
  assume "p \<in> set (updateData e d)"
  then have "rollNo p \<in> set (map rollNo (updateData e d))"
    by simp
  then show ?thesis
    by (cases "findIndex (\<lambda>p. rollNo p = toString (entryRollNo e)) d")
       (auto simp: map_rollNo_absent map_rollNo_present)
qed

lemma map_rollNo_reread:
  "\<forall>p\<in>set xs. readsBack X (rollNo p) \<Longrightarrow> map rollNo (map (reread X) xs) = map rollNo xs"
  by (induction xs) (simp_all add: rollNo_reread)

lemma reload_keeps_all:
  assumes "\<forall>p\<in>set d. rollNo p \<noteq> [] \<and> readsBack X (rollNo p)"
    and "toString (entryRollNo e) \<noteq> []" and "readsBack X (toString (entryRollNo e))"
  shows "reload X e d = map (reread X) (updateData e d)"
    and "map rollNo (reload X e d) = map rollNo (updateData e d)"
    and "\<forall>p\<in>set (reload X e d). rollNo p \<noteq> [] \<and> readsBack X (rollNo p)"
proof -
  have all: "\<forall>p\<in>set (updateData e d). rollNo p \<noteq> [] \<and> readsBack X (rollNo p)"
    using assms rollNo_updateData [of _ e d] by force
  then have "\<forall>p\<in>set (updateData e d). rollNo (reread X p) \<noteq> []"
    by (simp add: rollNo_reread)
  then have "filter (\<lambda>p. rollNo p \<noteq> []) (map (reread X) (updateData e d))
               = map (reread X) (updateData e d)"
    by (induction "updateData e d" arbitrary: d) (simp_all add: filter_id_conv)
  then show eq: "reload X e d = map (reread X) (updateData e d)"
    by (simp only: reload_def)
  from all show roll: "map rollNo (reload X e d) = map rollNo (updateData e d)"
    unfolding eq by (simp add: map_rollNo_reread del: map_map)
  have "rollNo ` set (reload X e d) = rollNo ` set (updateData e d)"
    using roll by (metis set_map)
  with all show "\<forall>p\<in>set (reload X e d). rollNo p \<noteq> [] \<and> readsBack X (rollNo p)"
    by (metis (no_types, lifting) image_iff)
qed

text \<open>One call for a player whose roll number prints as \<open>r\<close>, not empty and read back as
  written: where the player's record stands in the next read, and what it is.\<close>

lemma reload_player:
  assumes d: "\<forall>p\<in>set d. rollNo p \<noteq> [] \<and> readsBack X (rollNo p)"
    and r: "toString (entryRollNo e) = r" "r \<noteq> []" "readsBack X r"
  shows "findIndex (\<lambda>p. rollNo p = r) (reload X e d)
           = Some (case findIndex (\<lambda>p. rollNo p = r) d of None \<Rightarrow> length d | Some j \<Rightarrow> j)"
    and "length (reload X e d)
           = (case findIndex (\<lambda>p. rollNo p = r) d of None \<Rightarrow> Suc (length d) | Some j \<Rightarrow> length d)"
    and "reload X e d ! (case findIndex (\<lambda>p. rollNo p = r) d of None \<Rightarrow> length d | Some j \<Rightarrow> j)
           = reread X (case findIndex (\<lambda>p. rollNo p = r) d of
                         None \<Rightarrow> newPlayer e
                       | Some j \<Rightarrow> updatePlayer e ((d ! j)\<lparr>hasImproved := False\<rparr>))"
proof -
  have eq: "reload X e d = map (reread X) (updateData e d)"
    and roll: "map rollNo (reload X e d) = map rollNo (updateData e d)"
    using reload_keeps_all(1,2) [of d X e] d r by blast+
  show "findIndex (\<lambda>p. rollNo p = r) (reload X e d)
           = Some (case findIndex (\<lambda>p. rollNo p = r) d of None \<Rightarrow> length d | Some j \<Rightarrow> j)"
    using findIndex_updateData [of e d] findIndex_rollNo [OF roll, of r] r by simp
  show "length (reload X e d)
           = (case findIndex (\<lambda>p. rollNo p = r) d of None \<Rightarrow> Suc (length d) | Some j \<Rightarrow> length d)"
    using r by (simp add: eq length_updateData)
  show "reload X e d ! (case findIndex (\<lambda>p. rollNo p = r) d of None \<Rightarrow> length d | Some j \<Rightarrow> j)
           = reread X (case findIndex (\<lambda>p. rollNo p = r) d of
                         None \<Rightarrow> newPlayer e
                       | Some j \<Rightarrow> updatePlayer e ((d ! j)\<lparr>hasImproved := False\<rparr>))"
  proof (cases "findIndex (\<lambda>p. rollNo p = r) d")
    case None
    with r show ?thesis
      by (simp add: eq updateData_absent nth_append)
  next
    case (Some j)
    then have "j < length d"
      by (auto dest: findIndex_Some)
    with Some r show ?thesis
      by (simp add: eq updateData_present)
  qed
qed

text \<open>
  Claim C10, as amended.  The handler looks a player up by comparing
  \<^verbatim>\<open>String(newEntry.rollNo)\<close> with the roll numbers \<^verbatim>\<open>readData\<close> returned, which are
  strings.  Let two outcomes have roll numbers that print as the same string \<open>r\<close>; let \<open>r\<close>
  not be empty; and let \<open>r\<close> and the roll numbers of the records in the store be strings
  that are read back from the workbook as they were written.  After the first call (its
  write completing) the record set read back holds a record of \<open>r\<close>, at the position \<open>i\<close>
  where the first such record stood before, or at the end if there was none; the second
  call creates no record, finds the record at the same position \<open>i\<close> and updates that one;
  every other record is written with its flag reset and read back.  No record that
  \<^verbatim>\<open>readData\<close> returns has an empty roll number: a row whose roll number comes out as the
  empty string yields no record.
\<close>

theorem same_rendering_same_record:
  assumes "toString (entryRollNo e1) = r" and "toString (entryRollNo e2) = r" and "r \<noteq> []"
    and "readsBack X r" and "\<forall>p\<in>set (readData S f). readsBack X (rollNo p)"
  shows "let d0 = readData S f;
             f1 = fst (saveData X S None f e1);
             d1 = readData S f1;
             d2 = readData S (fst (saveData X S None f1 e2))
         in (\<exists>i<length d1.
               findIndex (\<lambda>p. rollNo p = r) d1 = Some i
               \<and> findIndex (\<lambda>p. rollNo p = r) d2 = Some i
               \<and> length d2 = length d1
               \<and> d1 ! i = reread X (case findIndex (\<lambda>p. rollNo p = r) d0 of
                                      None \<Rightarrow> newPlayer e1
                                    | Some j \<Rightarrow> updatePlayer e1 ((d0 ! j)\<lparr>hasImproved := False\<rparr>))
               \<and> d2 ! i = reread X (updatePlayer e2 ((d1 ! i)\<lparr>hasImproved := False\<rparr>))
               \<and> (\<forall>j<length d1. j \<noteq> i \<longrightarrow> d2 ! j = reread X ((d1 ! j)\<lparr>hasImproved := False\<rparr>)))
            \<and> (\<forall>p\<in>set d0. rollNo p \<noteq> [])
            \<and> (rollNo (sanitize S (readRow hk row)) = [] \<longrightarrow>
                 readRows S hk ((n, row) # rest) = readRows S hk rest)"
proof -
  define d0 where "d0 = readData S f"
  define d1 where "d1 = reload X e1 d0"
  define d2 where "d2 = reload X e2 d1"
  define i where "i = (case findIndex (\<lambda>p. rollNo p = r) d0 of None \<Rightarrow> length d0 | Some j \<Rightarrow> j)"
  have n0: "\<forall>p\<in>set d0. rollNo p \<noteq> [] \<and> readsBack X (rollNo p)"
    using assms(5) by (auto simp: d0_def dest: readData_rollNo)
  have n1: "\<forall>p\<in>set d1. rollNo p \<noteq> [] \<and> readsBack X (rollNo p)"
    unfolding d1_def using n0 assms(1,3,4) by (intro reload_keeps_all(3)) simp_all
  note first = reload_player [OF n0 assms(1,3,4), folded d1_def i_def]
  have i: "i < length d1"
    using first(2) by (auto simp: i_def dest: findIndex_Some split: option.splits)
  note second = reload_player [OF n1 assms(2,3,4), folded d2_def, unfolded first(1), simplified]
  have eq2: "d2 = map (reread X) (updateData e2 d1)"
    unfolding d2_def using reload_keeps_all(1) [of d1 X e2] n1 assms(2,3,4) by blast
  have upd: "updateData e2 d1 = (map (\<lambda>p. p\<lparr>hasImproved := False\<rparr>) d1)
                      [i := updatePlayer e2 ((d1 ! i)\<lparr>hasImproved := False\<rparr>)]"
    using first(1) assms(2) by (simp add: updateData_present)
  have others: "\<forall>j<length d1. j \<noteq> i \<longrightarrow> d2 ! j = reread X ((d1 ! j)\<lparr>hasImproved := False\<rparr>)"
    by (simp add: eq2 upd)
  have "\<exists>i<length d1.
               findIndex (\<lambda>p. rollNo p = r) d1 = Some i
               \<and> findIndex (\<lambda>p. rollNo p = r) d2 = Some i
               \<and> length d2 = length d1
               \<and> d1 ! i = reread X (case findIndex (\<lambda>p. rollNo p = r) d0 of
                                      None \<Rightarrow> newPlayer e1
                                    | Some j \<Rightarrow> updatePlayer e1 ((d0 ! j)\<lparr>hasImproved := False\<rparr>))
               \<and> d2 ! i = reread X (updatePlayer e2 ((d1 ! i)\<lparr>hasImproved := False\<rparr>))
               \<and> (\<forall>j<length d1. j \<noteq> i \<longrightarrow> d2 ! j = reread X ((d1 ! j)\<lparr>hasImproved := False\<rparr>))"
    using i first(1,3) second others by blast
  moreover have "\<forall>p\<in>set d0. rollNo p \<noteq> []"
    using n0 by simp
  ultimately show ?thesis
    unfolding Let_def readData_saveData d0_def d1_def d2_def by simp
qed

theorem same_rendering_same_record_witness:
  "toString (entryRollNo \<lparr>entryName = Str ''BO'', entryRollNo = Num (Fin 42), entryTime = Fin 7000, status = ''success''\<rparr>) = ''42''
   \<and> toString (entryRollNo \<lparr>entryName = Str ''BO'', entryRollNo = Str ''42'', entryTime = Fin 6000, status = ''success''\<rparr>) = ''42''
   \<and> ''42'' \<noteq> [] \<and> readsBack asWritten ''42'' \<and> readsBack asWritten ''p1''
   \<and> readData noNumber (fst (saveData asWritten noNumber None Missing (amy ''success'' 5000)))
       = [\<lparr>name = Str ''AMY'', rollNo = ''p1'', time = Fin 5000, successes = Fin 1,
            defeats = Fin 0, hasImproved = True\<rparr>]
   \<and> (\<exists>i. findIndex (\<lambda>p. rollNo p = ''42'')
              (readData noNumber (fst (saveData asWritten noNumber None
                 (fst (saveData asWritten noNumber None Missing (amy ''success'' 5000)))
                 \<lparr>entryName = Str ''BO'', entryRollNo = Num (Fin 42), entryTime = Fin 7000, status = ''success''\<rparr>))) = Some i
          \<and> findIndex (\<lambda>p. rollNo p = ''42'')
              (readData noNumber (fst (saveData asWritten noNumber None
                 (fst (saveData asWritten noNumber None
                    (fst (saveData asWritten noNumber None Missing (amy ''success'' 5000)))
                    \<lparr>entryName = Str ''BO'', entryRollNo = Num (Fin 42), entryTime = Fin 7000, status = ''success''\<rparr>))
                 \<lparr>entryName = Str ''BO'', entryRollNo = Str ''42'', entryTime = Fin 6000, status = ''success''\<rparr>))) = Some i)
   \<and> readData noNumber (fst (saveData asWritten noNumber None
         (fst (saveData asWritten noNumber None Missing (amy ''success'' 5000)))
         \<lparr>entryName = Str ''BO'', entryRollNo = Num (Fin 42), entryTime = Fin 7000, status = ''success''\<rparr>))
       = [\<lparr>name = Str ''AMY'', rollNo = ''p1'', time = Fin 5000, successes = Fin 1,
            defeats = Fin 0, hasImproved = False\<rparr>,
          \<lparr>name = Str ''BO'', rollNo = ''42'', time = Fin 7000, successes = Fin 1,
            defeats = Fin 0, hasImproved = True\<rparr>]
   \<and> readData noNumber (fst (saveData asWritten noNumber None
         (fst (saveData asWritten noNumber None
            (fst (saveData asWritten noNumber None Missing (amy ''success'' 5000)))
            \<lparr>entryName = Str ''BO'', entryRollNo = Num (Fin 42), entryTime = Fin 7000, status = ''success''\<rparr>))
         \<lparr>entryName = Str ''BO'', entryRollNo = Str ''42'', entryTime = Fin 6000, status = ''success''\<rparr>))
       = [\<lparr>name = Str ''AMY'', rollNo = ''p1'', time = Fin 5000, successes = Fin 1,
            defeats = Fin 0, hasImproved = False\<rparr>,
          \<lparr>name = Str ''BO'', rollNo = ''42'', time = Fin 6000, successes = Fin 2,
            defeats = Fin 0, hasImproved = True\<rparr>]"
proof -
  define e0 where "e0 = amy ''success'' 5000"
  define e1 where "e1 = \<lparr>entryName = Str ''BO'', entryRollNo = Num (Fin 42), entryTime = Fin 7000, status = ''success''\<rparr>"
  define e2 where "e2 = \<lparr>entryName = Str ''BO'', entryRollNo = Str ''42'', entryTime = Fin 6000, status = ''success''\<rparr>"
  define pa where "pa = \<lparr>name = Str ''AMY'', rollNo = ''p1'', time = Fin 5000, successes = Fin 1,
            defeats = Fin 0, hasImproved = True\<rparr>"
  define p1 where "p1 = \<lparr>name = Str ''BO'', rollNo = ''42'', time = Fin 7000, successes = Fin 1,
            defeats = Fin 0, hasImproved = True\<rparr>"
  define p2 where "p2 = \<lparr>name = Str ''BO'', rollNo = ''42'', time = Fin 6000, successes = Fin 2,
            defeats = Fin 0, hasImproved = True\<rparr>"
  define f0 where "f0 = fst (saveData asWritten noNumber None Missing e0)"
  have h1: "toString (entryRollNo e1) = ''42''" and h2: "toString (entryRollNo e2) = ''42''"
    and c3: "''42'' \<noteq> []"
    by (simp_all add: e1_def e2_def int_to_string_def digit_char_def)
  have rb: "readsBack asWritten ''42''" and rb1: "readsBack asWritten ''p1''"
    by (simp_all add: readsBack_def asWritten_def)
  have m: "readData noNumber Missing = []"
    by (simp add: readData_def)
  have new0: "reread asWritten (newPlayer e0) = pa"
    by (simp add: reread_def newPlayer_def e0_def amy_def pa_def asWritten_def or0_def js_or_def)
  have keep: "reread asWritten (pa\<lparr>hasImproved := False\<rparr>) = pa\<lparr>hasImproved := False\<rparr>"
    by (simp add: reread_def pa_def asWritten_def or0_def js_or_def)
  have new1: "reread asWritten (newPlayer e1) = p1"
    using h1 by (simp add: reread_def newPlayer_def e1_def p1_def asWritten_def or0_def js_or_def)
  have upd2: "reread asWritten (updatePlayer e2 (p1\<lparr>hasImproved := False\<rparr>)) = p2"
    by (simp add: reread_def updatePlayer_def e2_def p1_def p2_def asWritten_def or0_def js_or_def Let_def)
  have r0: "reload asWritten e0 [] = [pa]"
    using new0 by (simp add: reload_def updateData_Nil pa_def)
  have r1: "reload asWritten e1 [pa] = [pa\<lparr>hasImproved := False\<rparr>, p1]"
    using h1 new1 keep by (simp add: reload_def updateData_Cons updateData_Nil pa_def p1_def)
  have r2: "reload asWritten e2 [pa\<lparr>hasImproved := False\<rparr>, p1] = [pa\<lparr>hasImproved := False\<rparr>, p2]"
    using h2 upd2 keep by (simp add: reload_def updateData_Cons updateData_Nil pa_def p1_def p2_def)
  have c0: "readData noNumber f0 = [pa]"
    by (simp add: f0_def readData_saveData m r0)
  have c4: "readData noNumber (fst (saveData asWritten noNumber None f0 e1))
              = [pa\<lparr>hasImproved := False\<rparr>, p1]"
    by (simp add: readData_saveData c0 r1)
  have c5: "readData noNumber (fst (saveData asWritten noNumber None
              (fst (saveData asWritten noNumber None f0 e1)) e2))
              = [pa\<lparr>hasImproved := False\<rparr>, p2]"
    by (simp add: readData_saveData c0 r1 r2)
  have stored: "\<forall>p\<in>set (readData noNumber f0). readsBack asWritten (rollNo p)"
    using rb1 by (simp add: c0 pa_def)
  have found: "\<exists>i. findIndex (\<lambda>p. rollNo p = ''42'')
                     (readData noNumber (fst (saveData asWritten noNumber None f0 e1))) = Some i
                 \<and> findIndex (\<lambda>p. rollNo p = ''42'')
                     (readData noNumber (fst (saveData asWritten noNumber None
                        (fst (saveData asWritten noNumber None f0 e1)) e2))) = Some i"
    using same_rendering_same_record [OF h1 h2 c3 rb stored]
    unfolding Let_def by blast
  show ?thesis
    using h1 h2 c3 rb rb1 c0 found c4 c5
    unfolding e0_def e1_def e2_def pa_def p1_def p2_def f0_def
    by simp
qed

text \<open>
  Claim C10 as stated fails in two ways.  Two outcomes whose roll numbers both print as
  the empty string: the row the first call wrote is dropped when the second call reads,
  so the second call creates a record of its own and the first outcome is in no record.
  Two outcomes with a roll number that the workbook does not read back as written (here
  \<^verbatim>\<open>_x0041_\<close>, read back as \<^verbatim>\<open>A\<close>): the second call does not find the record of the first
  and adds a second one, and both are read back with the roll number \<^verbatim>\<open>A\<close>.
\<close>

theorem same_rendering_counterexample:
  "toString (entryRollNo \<lparr>entryName = Str ''AMY'', entryRollNo = Str [], entryTime = Fin 5000, status = ''success''\<rparr>)
     = toString (entryRollNo \<lparr>entryName = Str ''AMY'', entryRollNo = Str [], entryTime = Fin 7000, status = ''success''\<rparr>)
   \<and> saveAll asWritten noNumber Missing
        [\<lparr>entryName = Str ''AMY'', entryRollNo = Str [], entryTime = Fin 5000, status = ''success''\<rparr>,
         \<lparr>entryName = Str ''AMY'', entryRollNo = Str [], entryTime = Fin 7000, status = ''success''\<rparr>]
     = Workbook [(''Leaderboard'',
         [headerCells, [Str ''AMY'', Str [], Num (Fin 7000), Num (Fin 1), Num (Fin 0), Bool True]])]
   \<and> readData noNumber (saveAll decodesA noNumber Missing
        [\<lparr>entryName = Str ''AMY'', entryRollNo = Str ''_x0041_'', entryTime = Fin 5000, status = ''success''\<rparr>,
         \<lparr>entryName = Str ''AMY'', entryRollNo = Str ''_x0041_'', entryTime = Fin 7000, status = ''success''\<rparr>])
     = [\<lparr>name = Str ''AMY'', rollNo = ''A'', time = Fin 5000, successes = Fin 1,
          defeats = Fin 0, hasImproved = False\<rparr>,
        \<lparr>name = Str ''AMY'', rollNo = ''A'', time = Fin 7000, successes = Fin 1,
          defeats = Fin 0, hasImproved = True\<rparr>]"
proof -
  define e1 where "e1 = \<lparr>entryName = Str ''AMY'', entryRollNo = Str [], entryTime = Fin 5000, status = ''success''\<rparr>"
  define e2 where "e2 = \<lparr>entryName = Str ''AMY'', entryRollNo = Str [], entryTime = Fin 7000, status = ''success''\<rparr>"
  define x1 where "x1 = \<lparr>entryName = Str ''AMY'', entryRollNo = Str ''_x0041_'', entryTime = Fin 5000, status = ''success''\<rparr>"
  define x2 where "x2 = \<lparr>entryName = Str ''AMY'', entryRollNo = Str ''_x0041_'', entryTime = Fin 7000, status = ''success''\<rparr>"
  define a1 where "a1 = \<lparr>name = Str ''AMY'', rollNo = ''A'', time = Fin 5000, successes = Fin 1,
          defeats = Fin 0, hasImproved = True\<rparr>"
  define a2 where "a2 = \<lparr>name = Str ''AMY'', rollNo = ''A'', time = Fin 7000, successes = Fin 1,
          defeats = Fin 0, hasImproved = True\<rparr>"
  have m: "readData noNumber Missing = []"
    by (simp add: readData_def)
  have 1: "fst (saveData asWritten noNumber None Missing e1) = newWorkbook asWritten [newPlayer e1]"
    by (simp add: saveData_def readData_def updateData_Nil)
  have 2: "readData noNumber (newWorkbook asWritten [newPlayer e1]) = []"
    by (simp add: readData_newWorkbook reread_def newPlayer_def e1_def asWritten_def js_or_def)
  have 3: "fst (saveData asWritten noNumber None (newWorkbook asWritten [newPlayer e1]) e2)
             = newWorkbook asWritten [newPlayer e2]"
    by (simp add: saveData_def 2 updateData_Nil)
  have 4: "newWorkbook asWritten [newPlayer e2]
             = Workbook [(''Leaderboard'',
                 [headerCells, [Str ''AMY'', Str [], Num (Fin 7000), Num (Fin 1), Num (Fin 0), Bool True]])]"
    by (simp add: newWorkbook_def addRow_def newPlayer_def e2_def excelColumns_def asWritten_def)
  have first: "saveAll asWritten noNumber Missing [e1, e2]
     = Workbook [(''Leaderboard'',
         [headerCells, [Str ''AMY'', Str [], Num (Fin 7000), Num (Fin 1), Num (Fin 0), Bool True]])]"
    using 1 3 4 by simp
  have n1: "reread decodesA (newPlayer x1) = a1"
    by (simp add: reread_def newPlayer_def x1_def a1_def decodesA_def or0_def js_or_def)
  have n2: "reread decodesA (newPlayer x2) = a2"
    by (simp add: reread_def newPlayer_def x2_def a2_def decodesA_def or0_def js_or_def)
  have k: "reread decodesA (a1\<lparr>hasImproved := False\<rparr>) = a1\<lparr>hasImproved := False\<rparr>"
    by (simp add: reread_def a1_def decodesA_def or0_def js_or_def)
  have t1: "reload decodesA x1 [] = [a1]"
    using n1 by (simp add: reload_def updateData_Nil a1_def)
  have t2: "reload decodesA x2 [a1] = [a1\<lparr>hasImproved := False\<rparr>, a2]"
    using n2 k by (simp add: reload_def updateData_Cons updateData_Nil a1_def a2_def x2_def)
  have second: "readData noNumber (saveAll decodesA noNumber Missing [x1, x2])
                  = [a1\<lparr>hasImproved := False\<rparr>, a2]"
    by (simp add: readData_saveData m t1 t2)
  show ?thesis
    using first second unfolding e1_def e2_def x1_def x2_def a1_def a2_def by simp
qed

subsection \<open>The best time over a sequence of calls\<close>

lemma find_filter_implied:
  "(\<And>x. P x \<Longrightarrow> Q x) \<Longrightarrow> find P (filter Q xs) = find P xs"
  by (induction xs) auto

lemma find_map: "find P (map f xs) = map_option f (find (\<lambda>x. P (f x)) xs)"
  by (induction xs) auto

lemma find_reread:
  "\<forall>p\<in>set xs. readsBack X (rollNo p) \<Longrightarrow>
   find (\<lambda>p. rollNo (reread X p) = r) xs = find (\<lambda>p. rollNo p = r) xs"
  by (induction xs) (simp_all add: rollNo_reread)

lemma playerOf_read_back:
  assumes "r \<noteq> []" and "\<forall>p\<in>set xs. readsBack X (rollNo p)"
  shows "playerOf r (filter (\<lambda>p. rollNo p \<noteq> []) (map (reread X) xs))
           = map_option (reread X) (playerOf r xs)"
proof -
  from assms(1) have "find (\<lambda>p. rollNo p = r) (filter (\<lambda>p. rollNo p \<noteq> []) (map (reread X) xs))
               = find (\<lambda>p. rollNo p = r) (map (reread X) xs)"
    by (intro find_filter_implied) auto
  then show ?thesis
    using find_reread [OF assms(2), of r] by (simp add: playerOf_def find_map)
qed

lemma playerOf_updateData:
  "playerOf r (updateData e d) =
     (case playerOf r d of
        Some p \<Rightarrow> Some (if toString (entryRollNo e) = r
                        then updatePlayer e (p\<lparr>hasImproved := False\<rparr>)
                        else p\<lparr>hasImproved := False\<rparr>)
      | None \<Rightarrow> if toString (entryRollNo e) = r then Some (newPlayer e) else None)"
proof (induction d)
  case Nil
  then show ?case
    by (simp add: updateData_Nil playerOf_def)
next
  case (Cons p d)
  have cleared: "playerOf r (map (\<lambda>p. p\<lparr>hasImproved := False\<rparr>) d)
                   = map_option (\<lambda>p. p\<lparr>hasImproved := False\<rparr>) (playerOf r d)"
    by (simp add: playerOf_def find_map)
  show ?case
  proof (cases "rollNo p = toString (entryRollNo e)")
    case True
    then show ?thesis
      by (auto simp: updateData_Cons playerOf_def find_map split: option.splits)
  next
    case False
    with Cons.IH show ?thesis
      by (auto simp: updateData_Cons playerOf_def split: option.splits)
  qed
qed

text \<open>What one call makes of the record of \<open>r\<close>, in the record set read afterwards.\<close>

lemma playerOf_reload:
  assumes "r \<noteq> []" and "\<forall>p\<in>set d. readsBack X (rollNo p)"
    and "readsBack X (toString (entryRollNo e))"
  shows "playerOf r (reload X e d) =
     (case playerOf r d of
        Some p \<Rightarrow> Some (reread X (if toString (entryRollNo e) = r
                                  then updatePlayer e (p\<lparr>hasImproved := False\<rparr>)
                                  else p\<lparr>hasImproved := False\<rparr>))
      | None \<Rightarrow> if toString (entryRollNo e) = r then Some (reread X (newPlayer e)) else None)"
proof -
  have "\<forall>p\<in>set (updateData e d). readsBack X (rollNo p)"
    using assms(2,3) rollNo_updateData [of _ e d] by force
  then show ?thesis
    using assms(1) by (simp add: reload_def playerOf_read_back playerOf_updateData split: option.splits)
qed

lemma reload_reads_back:
  assumes "\<forall>p\<in>set d. readsBack X (rollNo p)" and "readsBack X (toString (entryRollNo e))"
  shows "\<forall>p\<in>set (reload X e d). readsBack X (rollNo p)"
proof -
  have "\<forall>p\<in>set (updateData e d). readsBack X (rollNo p)"
    using assms rollNo_updateData [of _ e d] by force
  then show ?thesis
    by (auto simp: reload_def rollNo_reread)
qed

lemma time_updatePlayer:
  "time (updatePlayer e (p\<lparr>hasImproved := False\<rparr>)) =
     (if status e = ''success'' \<and> num_less (entryTime e) (time p) then entryTime e else time p)"
  by (simp add: updatePlayer_def Let_def)

lemma time_newPlayer:
  "time (newPlayer e) = (if status e = ''success'' then entryTime e else PInf)"
  by (simp add: newPlayer_def)

lemma num_less_PInf_left [simp]: "\<not> num_less PInf a"
  by (cases a) simp_all

lemma num_less_PInf: "truthy_num a \<Longrightarrow> \<not> num_less a PInf \<Longrightarrow> a = PInf"
  by (cases a) simp_all

text \<open>One call: the best time read afterwards is the smaller of the best time read before
  and the time of the outcome, if the outcome is a success of the player; neither of the
  two being 0 or \<open>NaN\<close>.\<close>

lemma bestTime_reload:
  assumes "r \<noteq> []" and "truthy_num (bestTime r d)"
    and "successOf r e \<Longrightarrow> truthy_num (entryTime e)"
    and "\<forall>p\<in>set d. readsBack X (rollNo p)" and "readsBack X (toString (entryRollNo e))"
  shows "bestTime r (reload X e d) =
           (if successOf r e \<and> num_less (entryTime e) (bestTime r d) then entryTime e
            else bestTime r d)"
proof (cases "playerOf r d")
  case None
  with assms(1-3) show ?thesis
    by (auto simp: bestTime_def playerOf_reload [OF assms(1,4,5)] successOf_def
          time_reread time_newPlayer dest: num_less_PInf)
next
  case (Some p)
  with assms(1-3) show ?thesis
    by (auto simp: bestTime_def playerOf_reload [OF assms(1,4,5)] successOf_def
          time_reread time_updatePlayer)
qed

lemma successTimes_append:
  "successTimes r (es1 @ es2) = successTimes r es1 @ successTimes r es2"
  by (induction es1) (simp_all split: jsnum.split)

text \<open>The invariant of a sequence of calls: if the best time read is the least of the
  times \<open>T\<close> (\<^verbatim>\<open>Infinity\<close> for none), it is the least of \<open>T\<close> and the times applied since.\<close>

lemma bestTime_saveAll:
  assumes "r \<noteq> []"
    and "\<forall>e\<in>set es. successOf r e \<longrightarrow> (\<exists>t. entryTime e = Fin t \<and> t \<noteq> 0)"
    and "bestTime r (readData S f) = (if T = [] then PInf else Fin (Min (set T)))"
    and "0 \<notin> set T"
    and "\<forall>p\<in>set (readData S f). readsBack X (rollNo p)"
    and "\<forall>e\<in>set es. readsBack X (toString (entryRollNo e))"
  shows "bestTime r (readData S (saveAll X S f es))
           = (if T @ successTimes r es = [] then PInf
              else Fin (Min (set (T @ successTimes r es))))"
  using assms(2-6)
proof (induction es arbitrary: f T)
  case Nil
  then show ?case by simp
next
  case (Cons e es)
  let ?B = "bestTime r (readData S f)"
  let ?f' = "fst (saveData X S None f e)"
  have good: "truthy_num ?B"
  proof (cases "T = []")
    case True
    with Cons.prems(2) show ?thesis by simp
  next
    case False
    then have "Min (set T) \<in> set T"
      by (intro Min_in) simp_all
    with Cons.prems(3) have "Min (set T) \<noteq> 0"
      by metis
    with False Cons.prems(2) show ?thesis by simp
  qed
  have rest: "\<forall>e\<in>set es. successOf r e \<longrightarrow> (\<exists>t. entryTime e = Fin t \<and> t \<noteq> 0)"
    and rest': "\<forall>e\<in>set es. readsBack X (toString (entryRollNo e))"
    and this_one: "readsBack X (toString (entryRollNo e))"
    using Cons.prems(1,5) by simp_all
  have stored: "\<forall>p\<in>set (readData S ?f'). readsBack X (rollNo p)"
    unfolding readData_saveData using Cons.prems(4) this_one by (rule reload_reads_back)
  show ?case
  proof (cases "successOf r e")
    case True
    with Cons.prems(1) obtain t where t: "entryTime e = Fin t" "t \<noteq> 0"
      by auto
    then have te: "successOf r e \<Longrightarrow> truthy_num (entryTime e)"
      by simp
    note one = bestTime_reload [OF assms(1) good te Cons.prems(4) this_one]
    have step: "bestTime r (readData S ?f')
                  = (if T @ [t] = [] then PInf else Fin (Min (set (T @ [t]))))"
    proof (cases "T = []")
      case True
      with Cons.prems(2) t \<open>successOf r e\<close> one show ?thesis
        by (simp add: readData_saveData)
    next
      case False
      define m where "m = Min (set T)"
      from False have least: "Min (insert t (set T)) = min t m"
        unfolding m_def by (intro Min_insert) simp_all
      have B: "?B = Fin m"
        using False Cons.prems(2) by (simp add: m_def)
      have "bestTime r (readData S ?f') = (if num_less (Fin t) (Fin m) then Fin t else Fin m)"
        using t \<open>successOf r e\<close> one
        by (simp add: readData_saveData B)
      also have "\<dots> = Fin (min t m)"
        by (simp add: min_def)
      finally show ?thesis
        using least by simp
    qed
    have "0 \<notin> set (T @ [t])"
      using Cons.prems(3) t by simp
    from Cons.IH [OF rest step this stored rest'] True t show ?thesis
      by simp
  next
    case False
    then have "bestTime r (readData S ?f') = ?B"
      using bestTime_reload [OF assms(1) good _ Cons.prems(4) this_one]
      by (simp add: readData_saveData)
    with Cons.prems(2) have step: "bestTime r (readData S ?f')
                  = (if T = [] then PInf else Fin (Min (set T)))"
      by simp
    from Cons.IH [OF rest step Cons.prems(3) stored rest'] False show ?thesis
      by (simp split: jsnum.split)
  qed
qed

lemma successTimes_nonempty:
  "\<forall>e\<in>set es. successOf r e \<longrightarrow> (\<exists>t. entryTime e = Fin t \<and> t \<noteq> 0) \<Longrightarrow>
   \<exists>e\<in>set es. successOf r e \<Longrightarrow> successTimes r es \<noteq> []"
  by (induction es) (auto split: jsnum.splits)

text \<open>
  Claim C1, as amended.  Take a roll number \<open>r\<close> that is not the empty string; a store
  whose records hold none of \<open>r\<close> and whose roll numbers are strings read back from the
  workbook as they were written; and any sequence of calls of the handler, one after the
  other and each write completing, for any players and with any results, in which the roll
  number of every outcome prints as a string that is read back as written, every success
  of \<open>r\<close> has a finite elapsed time other than 0, and at least one outcome is a success of
  \<open>r\<close>.  Then the record of \<open>r\<close> read from the store afterwards has as its best time the
  minimum of the elapsed times of all successes of \<open>r\<close> applied; and the best time read
  after the whole sequence is not above the best time read after any part of it done
  first.
\<close>

theorem best_time_is_minimum:
  assumes "r \<noteq> []" and "playerOf r (readData S f) = None"
    and "\<forall>p\<in>set (readData S f). readsBack X (rollNo p)"
    and "\<forall>e\<in>set es. readsBack X (toString (entryRollNo e))"
    and "\<forall>e\<in>set es. successOf r e \<longrightarrow> (\<exists>t. entryTime e = Fin t \<and> t \<noteq> 0)"
    and "\<exists>e\<in>set es. successOf r e"
  shows "(\<exists>p. playerOf r (readData S (saveAll X S f es)) = Some p
              \<and> time p = Fin (Min (set (successTimes r es))))
         \<and> (\<forall>es1 es2. es = es1 @ es2 \<longrightarrow>
               \<not> num_less (bestTime r (readData S (saveAll X S f es1)))
                           (bestTime r (readData S (saveAll X S f es))))"
proof -
  have start: "bestTime r (readData S f) = (if ([]::int list) = [] then PInf else Fin (Min (set [])))"
    using assms(2) by (simp add: bestTime_def)
  have after: "bestTime r (readData S (saveAll X S f es')) =
                 (if successTimes r es' = [] then PInf else Fin (Min (set (successTimes r es'))))"
    if "\<forall>e\<in>set es'. successOf r e \<longrightarrow> (\<exists>t. entryTime e = Fin t \<and> t \<noteq> 0)"
      and "\<forall>e\<in>set es'. readsBack X (toString (entryRollNo e))" for es'
    using bestTime_saveAll [OF assms(1) that(1) start _ assms(3) that(2)] by simp
  have some: "successTimes r es \<noteq> []"
    using assms(5,6) by (rule successTimes_nonempty)
  have whole: "bestTime r (readData S (saveAll X S f es)) = Fin (Min (set (successTimes r es)))"
    using after [OF assms(5,4)] some by simp
  then have 1: "\<exists>p. playerOf r (readData S (saveAll X S f es)) = Some p
              \<and> time p = Fin (Min (set (successTimes r es)))"
    by (auto simp: bestTime_def split: option.splits)
  have 2: "\<not> num_less (bestTime r (readData S (saveAll X S f es1)))
                       (bestTime r (readData S (saveAll X S f es)))"
    if "es = es1 @ es2" for es1 es2
  proof (cases "successTimes r es1 = []")
    case True
    with that assms(4,5) show ?thesis
      using after [of es1] by simp
  next
    case False
    have "set (successTimes r es1) \<subseteq> set (successTimes r es)"
      using that by (simp add: successTimes_append)
    with False have "Min (set (successTimes r es)) \<le> Min (set (successTimes r es1))"
      by (intro Min_antimono) simp_all
    moreover have "bestTime r (readData S (saveAll X S f es1)) = Fin (Min (set (successTimes r es1)))"
      using that assms(4,5) False after [of es1] by simp
    ultimately show ?thesis
      using whole by simp
  qed
  from 1 2 show ?thesis by blast
qed

text \<open>The theorem at the player \<^verbatim>\<open>p1\<close> and four calls over an absent file: successes of
  5000, 7000 and 4000 ms, with a defeat of another player in between.\<close>

theorem best_time_is_minimum_witness:
  "''p1'' \<noteq> [] \<and> readData noNumber Missing = []
   \<and> readsBack asWritten ''p1'' \<and> readsBack asWritten ''p2''
   \<and> successTimes ''p1''
        [amy ''success'' 5000, bo ''defeat'' 100, amy ''success'' 7000, amy ''success'' 4000]
       = [5000, 7000, 4000]
   \<and> (\<exists>p. playerOf ''p1'' (readData noNumber (saveAll asWritten noNumber Missing
              [amy ''success'' 5000, bo ''defeat'' 100, amy ''success'' 7000, amy ''success'' 4000]))
             = Some p
           \<and> time p = Fin 4000)"
proof -
  let ?es = "[amy ''success'' 5000, bo ''defeat'' 100, amy ''success'' 7000, amy ''success'' 4000]"
  have h1: "''p1'' \<noteq> []" by simp
  have m: "readData noNumber Missing = []"
    by (simp add: readData_def)
  have rb: "readsBack asWritten ''p1''" "readsBack asWritten ''p2''"
    by (simp_all add: readsBack_def asWritten_def)
  have h2: "playerOf ''p1'' (readData noNumber Missing) = None"
    by (simp add: m playerOf_def)
  have h3: "\<forall>p\<in>set (readData noNumber Missing). readsBack asWritten (rollNo p)"
    by (simp add: m)
  have h4: "\<forall>e\<in>set ?es. readsBack asWritten (toString (entryRollNo e))"
    using rb by (simp add: amy_def bo_def)
  have h5: "\<forall>e\<in>set ?es. successOf ''p1'' e \<longrightarrow> (\<exists>t. entryTime e = Fin t \<and> t \<noteq> 0)"
    by (simp add: amy_def bo_def successOf_def)
  have h6: "\<exists>e\<in>set ?es. successOf ''p1'' e"
    by (simp add: amy_def successOf_def)
  have ts: "successTimes ''p1'' ?es = [5000, 7000, 4000]"
    by (simp add: amy_def bo_def successOf_def)
  from best_time_is_minimum [OF h1 h2 h3 h4 h5 h6]
  have "\<exists>p. playerOf ''p1'' (readData noNumber (saveAll asWritten noNumber Missing ?es)) = Some p
           \<and> time p = Fin (Min (set (successTimes ''p1'' ?es)))"
    by (rule conjunct1)
  then have "\<exists>p. playerOf ''p1'' (readData noNumber (saveAll asWritten noNumber Missing ?es)) = Some p
           \<and> time p = Fin 4000"
    by (simp only: ts) simp
  with h1 m rb ts show ?thesis
    by blast
qed

text \<open>
  Claim C1 as stated fails when a success has an elapsed time of 0 ms.  The first call
  writes the best time 0; the second call reads it as \<^verbatim>\<open>Infinity\<close>, so its 5000 ms replace
  it: the best time is then 5000 although the minimum of the two successes is 0, and the
  stored best time went up from 0 to 5000.
\<close>

theorem zero_success_counterexample:
  "saveAll asWritten noNumber Missing [amy ''success'' 0]
     = Workbook [(''Leaderboard'',
         [headerCells, [Str ''AMY'', Str ''p1'', Num (Fin 0), Num (Fin 1), Num (Fin 0), Bool True]])]
   \<and> saveAll asWritten noNumber Missing [amy ''success'' 0, amy ''success'' 5000]
     = Workbook [(''Leaderboard'',
         [headerCells, [Str ''AMY'', Str ''p1'', Num (Fin 5000), Num (Fin 2), Num (Fin 0), Bool True]])]
   \<and> successTimes ''p1'' [amy ''success'' 0, amy ''success'' 5000] = [0, 5000]
   \<and> bestTime ''p1'' (readData noNumber (saveAll asWritten noNumber Missing [amy ''success'' 0, amy ''success'' 5000]))
     = Fin 5000"
proof -
  define p0 where "p0 = \<lparr>name = Str ''AMY'', rollNo = ''p1'', time = Fin 0, successes = Fin 1,
                          defeats = Fin 0, hasImproved = True\<rparr>"
  define p1 where "p1 = \<lparr>name = Str ''AMY'', rollNo = ''p1'', time = Fin 5000, successes = Fin 2,
                          defeats = Fin 0, hasImproved = True\<rparr>"
  have f1: "fst (saveData asWritten noNumber None Missing (amy ''success'' 0)) = newWorkbook asWritten [p0]"
    by (simp add: saveData_def readData_def updateData_Nil newPlayer_def amy_def p0_def)
  have d1: "readData noNumber (newWorkbook asWritten [p0]) = [p0\<lparr>time := PInf\<rparr>]"
    by (simp add: readData_newWorkbook reread_def p0_def asWritten_def or0_def js_or_def)
  have u: "updateData (amy ''success'' 5000) [p0\<lparr>time := PInf\<rparr>] = [p1]"
    by (simp add: updateData_Cons updatePlayer_def amy_def p0_def p1_def or0_def Let_def)
  have f2: "fst (saveData asWritten noNumber None (newWorkbook asWritten [p0]) (amy ''success'' 5000))
              = newWorkbook asWritten [p1]"
    by (simp add: saveData_def d1 u)
  have d2: "readData noNumber (newWorkbook asWritten [p1]) = [p1]"
    by (simp add: readData_newWorkbook reread_def p1_def asWritten_def or0_def js_or_def)
  have w0: "newWorkbook asWritten [p0] = Workbook [(''Leaderboard'',
         [headerCells, [Str ''AMY'', Str ''p1'', Num (Fin 0), Num (Fin 1), Num (Fin 0), Bool True]])]"
    and w1: "newWorkbook asWritten [p1] = Workbook [(''Leaderboard'',
         [headerCells, [Str ''AMY'', Str ''p1'', Num (Fin 5000), Num (Fin 2), Num (Fin 0), Bool True]])]"
    by (simp_all add: newWorkbook_def addRow_def excelColumns_def asWritten_def p0_def p1_def)
  have ts: "successTimes ''p1'' [amy ''success'' 0, amy ''success'' 5000] = [0, 5000]"
    by (simp add: amy_def successOf_def)
  have b: "bestTime ''p1'' [p1] = Fin 5000"
    by (simp add: bestTime_def playerOf_def p1_def)
  show ?thesis
    using ts b by (simp add: f1 f2 d2 flip: w0 w1)
qed

section \<open>Properties of the session timer\<close>

text \<open>
  Claim C6, as amended.  \<^verbatim>\<open>handleStartTrial\<close> does not look at \<^verbatim>\<open>timerInterval\<close>: whether or
  not a run is being timed, it is turned down, with an error message and nothing else
  changed, exactly when the trimmed name or the trimmed roll number is empty.  In every
  other case, a run being timed or not, it records the new start instant, sends
  \<^verbatim>\<open>START\<close>, and starts one more periodic reporter, whose id replaces the one in
  \<^verbatim>\<open>timerInterval\<close>; the reporters already running keep running.
\<close>

theorem start_is_not_guarded:
  "(trim nameInput = [] \<or> trim rollNoInput = [] \<longrightarrow>
      handleStartTrial nameInput rollNoInput now r
        = r\<lparr>errorMessage := ''Player Name and Roll Number are required.''\<rparr>)
   \<and> (trim nameInput \<noteq> [] \<and> trim rollNoInput \<noteq> [] \<longrightarrow>
      startTime (handleStartTrial nameInput rollNoInput now r) = Some now
      \<and> sentCommands (handleStartTrial nameInput rollNoInput now r) = sentCommands r @ [''START'']
      \<and> intervals (handleStartTrial nameInput rollNoInput now r) = intervals r @ [nextInterval r]
      \<and> timerInterval (handleStartTrial nameInput rollNoInput now r) = Some (nextInterval r)
      \<and> activeScreen (handleStartTrial nameInput rollNoInput now r) = Game
      \<and> entryRollNo (currentPlayer (handleStartTrial nameInput rollNoInput now r))
          = Str (trim rollNoInput))"
  by (simp add: handleStartTrial_def startTimer_def switchScreen_def Let_def)

text \<open>The theorem at an empty roll number, and at a start during a run that is being
  timed.\<close>

theorem start_is_not_guarded_witness:
  "trim ''   '' = []
   \<and> handleStartTrial ''amy'' ''   '' 1000 initialRenderer
       = initialRenderer\<lparr>errorMessage := ''Player Name and Roll Number are required.''\<rparr>
   \<and> trim ''bo'' \<noteq> [] \<and> trim ''p2'' \<noteq> []
   \<and> timerInterval (handleStartTrial ''amy'' ''p1'' 1000 initialRenderer) = Some 1
   \<and> startTime (handleStartTrial ''bo'' ''p2'' 2000 (handleStartTrial ''amy'' ''p1'' 1000 initialRenderer))
       = Some 2000"
proof -
  have t: "trim ''   '' = []" "trim ''bo'' = ''bo''" "trim ''p2'' = ''p2''"
    "trim ''amy'' = ''amy''" "trim ''p1'' = ''p1''"
    by (simp_all add: trim_def isspace_def)
  have first: "timerInterval (handleStartTrial ''amy'' ''p1'' 1000 initialRenderer) = Some 1"
    by (simp add: handleStartTrial_def startTimer_def switchScreen_def Let_def t
          initialRenderer_def)
  show ?thesis
    using start_is_not_guarded [of "''amy''" "''   ''" 1000 initialRenderer]
      start_is_not_guarded [of "''bo''" "''p2''" 2000
        "handleStartTrial ''amy'' ''p1'' 1000 initialRenderer"]
      first
    by (simp add: t)
qed

text \<open>
  Claim C6 as stated fails: a second start while the first run is being timed is not a
  no-op.  It replaces the start instant, sends \<^verbatim>\<open>START\<close> a second time, and a second
  reporter runs beside the first.
\<close>

theorem second_start_counterexample:
  "timerInterval (handleStartTrial ''amy'' ''p1'' 1000 initialRenderer) = Some 1
   \<and> startTime (handleStartTrial ''amy'' ''p1'' 1000 initialRenderer) = Some 1000
   \<and> startTime (handleStartTrial ''bo'' ''p2'' 2000 (handleStartTrial ''amy'' ''p1'' 1000 initialRenderer))
       = Some 2000
   \<and> sentCommands (handleStartTrial ''bo'' ''p2'' 2000 (handleStartTrial ''amy'' ''p1'' 1000 initialRenderer))
       = [''START'', ''START'']
   \<and> intervals (handleStartTrial ''bo'' ''p2'' 2000 (handleStartTrial ''amy'' ''p1'' 1000 initialRenderer))
       = [1, 2]
   \<and> timerInterval (handleStartTrial ''bo'' ''p2'' 2000 (handleStartTrial ''amy'' ''p1'' 1000 initialRenderer))
       = Some 2"
proof -
  have t: "trim ''bo'' = ''bo''" "trim ''p2'' = ''p2''" "trim ''amy'' = ''amy''" "trim ''p1'' = ''p1''"
    by (simp_all add: trim_def isspace_def)
  show ?thesis
    by (simp add: handleStartTrial_def startTimer_def switchScreen_def Let_def t
          initialRenderer_def)
qed

section \<open>Properties of the serial connection\<close>

text \<open>
  Claim C7, as amended.  \<^verbatim>\<open>connectToPort\<close> closes the port that is open, whatever its
  path, before it creates the new one, and creates the new one directly when no port is
  open.  It never compares the path asked for with the path of the open port: asked for
  the endpoint that is already open, it closes that port (the renderer is told
  \<^verbatim>\<open>serial:closed\<close>) and opens the endpoint anew, so the call is not a no-op, and no port
  is open afterwards if the new open fails.  Closing is guarded by \<^verbatim>\<open>port.isOpen\<close>: when
  no port is open it changes nothing, and closing twice is closing once.
\<close>

theorem connect_closes_first:
  "(portIsOpen m \<longrightarrow>
      connectToPort path opens m = createNewPort path opens (closePort m)
      \<and> (\<exists>old. port m = Some old \<and> isOpen old
            \<and> fired (connectToPort path opens m)
                = fired m @ [EvClose (portPath old), if opens then EvOpen path else EvError path]
            \<and> toRenderer (connectToPort path opens m)
                = toRenderer m @ (if mainWindow m then [''serial:closed''] else [])
                    @ (if \<not> opens \<and> mainWindow m then [''serial:error''] else []))
      \<and> connectToPort path opens m \<noteq> m)
   \<and> (\<not> portIsOpen m \<longrightarrow> connectToPort path opens m = createNewPort path opens m)
   \<and> port (connectToPort path opens m) = Some \<lparr>portPath = path, isOpen = opens\<rparr>
   \<and> (\<not> portIsOpen m \<longrightarrow> closeIfOpen m = m)
   \<and> closeIfOpen (closeIfOpen m) = closeIfOpen m
   \<and> \<not> portIsOpen (closeIfOpen m)"
proof -
  have "connectToPort path opens m \<noteq> m" if "portIsOpen m"
  proof
    assume "connectToPort path opens m = m"
    then have "length (fired (connectToPort path opens m)) = length (fired m)"
      by simp
    with that show False
      by (auto simp: connectToPort_def createNewPort_def closePort_def portIsOpen_def Let_def
            split: option.splits if_splits)
  qed
  then show ?thesis
    by (auto simp: connectToPort_def createNewPort_def closePort_def portIsOpen_def
          closeIfOpen_def Let_def split: option.splits)
qed


text \<open>The theorem at a connection to \<^verbatim>\<open>COM4\<close> while \<^verbatim>\<open>COM3\<close> is open, and at the first
  connection and a close when no port was created yet.\<close>

theorem connect_closes_first_witness:
  "portIsOpen (connectToPort ''COM3'' True initialMain)
   \<and> fired (connectToPort ''COM4'' True (connectToPort ''COM3'' True initialMain))
       = [EvOpen ''COM3'', EvClose ''COM3'', EvOpen ''COM4'']
   \<and> port (connectToPort ''COM4'' True (connectToPort ''COM3'' True initialMain))
       = Some \<lparr>portPath = ''COM4'', isOpen = True\<rparr>
   \<and> \<not> portIsOpen initialMain
   \<and> connectToPort ''COM3'' True initialMain = createNewPort ''COM3'' True initialMain
   \<and> closeIfOpen initialMain = initialMain"
proof -
  have a: "portIsOpen (connectToPort ''COM3'' True initialMain)"
    and b: "\<not> portIsOpen initialMain"
    and c: "fired (connectToPort ''COM3'' True initialMain) = [EvOpen ''COM3'']"
    and d: "port (connectToPort ''COM3'' True initialMain) = Some \<lparr>portPath = ''COM3'', isOpen = True\<rparr>"
    by (simp_all add: connectToPort_def createNewPort_def portIsOpen_def initialMain_def Let_def)
  show ?thesis
    using connect_closes_first [of "connectToPort ''COM3'' True initialMain" "''COM4''" True]
      connect_closes_first [of initialMain "''COM3''" True] a b c d
    by auto
qed

text \<open>
  Claim C7 as stated fails for opening: connecting to \<^verbatim>\<open>COM3\<close> while the port open is
  \<^verbatim>\<open>COM3\<close> is not a no-op.  The port is closed and opened again, the renderer is sent
  \<^verbatim>\<open>serial:closed\<close>, and if the second open fails no port is open although one was.
\<close>

theorem reconnect_counterexample:
  "port (connectToPort ''COM3'' True initialMain) = Some \<lparr>portPath = ''COM3'', isOpen = True\<rparr>
   \<and> connectToPort ''COM3'' True (connectToPort ''COM3'' True initialMain)
       \<noteq> connectToPort ''COM3'' True initialMain
   \<and> fired (connectToPort ''COM3'' True (connectToPort ''COM3'' True initialMain))
       = [EvOpen ''COM3'', EvClose ''COM3'', EvOpen ''COM3'']
   \<and> toRenderer (connectToPort ''COM3'' True initialMain) = []
   \<and> toRenderer (connectToPort ''COM3'' True (connectToPort ''COM3'' True initialMain))
       = [''serial:closed'']
   \<and> \<not> portIsOpen (connectToPort ''COM3'' False (connectToPort ''COM3'' True initialMain))"
proof -
  have m: "connectToPort ''COM3'' True initialMain
             = \<lparr>port = Some \<lparr>portPath = ''COM3'', isOpen = True\<rparr>, mainWindow = True,
                 fired = [EvOpen ''COM3''], toRenderer = []\<rparr>"
    by (simp add: connectToPort_def createNewPort_def portIsOpen_def initialMain_def Let_def)
  show ?thesis
    unfolding m
    by (simp add: connectToPort_def createNewPort_def closePort_def portIsOpen_def Let_def)
qed

section \<open>Properties of calls in flight\<close>




end
